theory Spec2Isabelle
  imports Main "HOL-Library.AList" "HOL-Library.Sublist"
begin

section \<open>Values, dictionaries and exceptions\<close>

text \<open>
  The metadata documents are JSON read by \<^verbatim>\<open>json.load\<close>, and the attributes of an
  argparse namespace hold Python values. Both are modelled by one datatype of JSON-like
  values: \<open>JNull\<close> is Python's \<^verbatim>\<open>None\<close>. A dictionary is an association list in
  insertion order, read with \<open>map_of\<close>; floats do not occur in what is modelled.
  A string is the list of its code points, and a character of the model is a code
  point below 256: the strings of the model are the Python strings over that range.
\<close>

datatype json =
    JNull
  | JBool bool
  | JNum int
  | JStr string
  | JArr "json list"
  | JObj "(string \<times> json) list"

type_synonym 'v dict = "(string \<times> 'v) list"

definition has_key :: "string \<Rightarrow> 'v dict \<Rightarrow> bool" where
  \<comment> \<open>\<^verbatim>\<open>k in d\<close>\<close>
  "has_key k d = (map_of d k \<noteq> None)"

text \<open>
  The exception classes of \<^verbatim>\<open>exceptions.py\<close> and of the loader, with the built-in
  classes that the modelled statements can raise. \<open>superclass\<close> is the base named in
  each \<^verbatim>\<open>class\<close> statement.
\<close>

datatype exc_class =
    Exception
  | LookupError
  | KeyError
  | IndexError
  | TypeError
  | AttributeError
  | UnknownTypeException
  | ValidateFailureException
  | ParserFailureException
  | ParserHelpException
  | EmptyCommandException
  | NonAzCommandException
  | CommandTreeCorruptedException
  | UnknownCommandException
  | ResourceNotExistException

fun superclass :: "exc_class \<Rightarrow> exc_class option" where
  "superclass Exception = None"
| "superclass LookupError = Some Exception"
| "superclass KeyError = Some LookupError"
| "superclass IndexError = Some LookupError"
| "superclass TypeError = Some Exception"
| "superclass AttributeError = Some Exception"
| "superclass UnknownTypeException = Some Exception"
| "superclass ValidateFailureException = Some Exception"
| "superclass ParserFailureException = Some ValidateFailureException"
| "superclass ParserHelpException = Some ValidateFailureException"
| "superclass EmptyCommandException = Some ValidateFailureException"
| "superclass NonAzCommandException = Some ValidateFailureException"
| "superclass CommandTreeCorruptedException = Some ValidateFailureException"
| "superclass UnknownCommandException = Some ValidateFailureException"
| "superclass ResourceNotExistException = Some Exception"

fun class_depth :: "exc_class \<Rightarrow> nat" where
  "class_depth Exception = 0"
| "class_depth LookupError = 1"
| "class_depth KeyError = 2"
| "class_depth IndexError = 2"
| "class_depth TypeError = 1"
| "class_depth AttributeError = 1"
| "class_depth UnknownTypeException = 1"
| "class_depth ValidateFailureException = 1"
| "class_depth ParserFailureException = 2"
| "class_depth ParserHelpException = 2"
| "class_depth EmptyCommandException = 2"
| "class_depth NonAzCommandException = 2"
| "class_depth CommandTreeCorruptedException = 2"
| "class_depth UnknownCommandException = 2"
| "class_depth ResourceNotExistException = 1"

function issubclass :: "exc_class \<Rightarrow> exc_class \<Rightarrow> bool" where
  "issubclass c d =
     (if c = d then True
      else (case superclass c of None \<Rightarrow> False | Some p \<Rightarrow> issubclass p d))"
  by pat_completeness auto
termination
proof (relation "measure (\<lambda>(c, d). class_depth c)")
  show "wf (measure (\<lambda>(c, d). class_depth c))" by simp
next
  fix c d p
  assume "c \<noteq> d" and "superclass c = Some p"
  then show "((p, d), (c, d)) \<in> measure (\<lambda>(c, d). class_depth c)"
    by (cases c) auto
qed

declare issubclass.simps [simp del]

text \<open>A raised exception: its class and its \<^verbatim>\<open>msg\<close> (for \<open>KeyError\<close>, the key).\<close>

datatype error = Raise exc_class string

fun exc_class_of :: "error \<Rightarrow> exc_class" where
  "exc_class_of (Raise c m) = c"

definition caught_by :: "exc_class \<Rightarrow> error \<Rightarrow> bool" where
  \<comment> \<open>whether \<^verbatim>\<open>except handler:\<close> catches the raised exception\<close>
  "caught_by handler e = issubclass (exc_class_of e) handler"

definition ParserHelpException_init :: error where
  "ParserHelpException_init =
     Raise ParserHelpException ''The user inputs `-h/--help`. This is not a real exception.''"

section \<open>Strings\<close>

fun py_join :: "string \<Rightarrow> string list \<Rightarrow> string" where
  \<comment> \<open>\<^verbatim>\<open>sep.join(xs)\<close> for a list of strings\<close>
  "py_join sep [] = []"
| "py_join sep [x] = x"
| "py_join sep (x # y # ys) = x @ sep @ py_join sep (y # ys)"

definition py_isspace :: "char \<Rightarrow> bool" where
  \<comment> \<open>the code points below 256 on which \<^verbatim>\<open>str.split()\<close> splits: U+0009 to U+000D,
      U+001C to U+001F, U+0020, U+0085 and U+00A0\<close>
  "py_isspace c =
     (c = CHR '' '' \<or> c = CHR 0x09 \<or> c = CHR 0x0A \<or> c = CHR 0x0B \<or> c = CHR 0x0C
      \<or> c = CHR 0x0D \<or> c = CHR 0x1C \<or> c = CHR 0x1D \<or> c = CHR 0x1E \<or> c = CHR 0x1F
      \<or> c = CHR 0x85 \<or> c = CHR 0xA0)"

fun split_from :: "string \<Rightarrow> string \<Rightarrow> string list" where
  \<comment> \<open>the tokens of the rest of the string, \<open>cur\<close> being the token read so far\<close>
  "split_from cur [] = (if cur = [] then [] else [cur])"
| "split_from cur (c # cs) =
     (if py_isspace c then (if cur = [] then split_from [] cs else cur # split_from [] cs)
      else split_from (cur @ [c]) cs)"

definition py_split :: "string \<Rightarrow> string list" where
  \<comment> \<open>\<^verbatim>\<open>s.split()\<close>: the maximal runs of non-whitespace characters\<close>
  "py_split s = split_from [] s"

definition last_token :: "string \<Rightarrow> error + string" where
  \<comment> \<open>\<^verbatim>\<open>name.split()[-1]\<close>; indexing an empty list raises \<open>IndexError\<close>\<close>
  "last_token name =
     (case py_split name of
        [] \<Rightarrow> Inl (Raise IndexError ''list index out of range'')
      | t # ts \<Rightarrow> Inr (last (t # ts)))"

section \<open>Command metadata\<close>

text \<open>
  A parameter of a command is the dictionary read from the metadata file: the policy of
  the validator tests which keys it has. A command is its \<^verbatim>\<open>'parameters'\<close> list. A
  group carries its \<^verbatim>\<open>'commands'\<close> and \<^verbatim>\<open>'sub_groups'\<close> dictionaries, keyed by the
  space-joined path; a module's document is a group with a \<^verbatim>\<open>'module_name'\<close>. The
  types fix the schema of the metadata files: every group has both dictionaries, every
  command has its parameter list, and a module name is a string.
\<close>

type_synonym param = "json dict"

datatype command_meta = CommandMeta (meta_parameters: "param list")

datatype sub_group =
  SubGroup (commands: "command_meta dict") (sub_groups: "sub_group dict")

datatype module_meta = ModuleMeta (module_name_of: string) (as_group: sub_group)

type_synonym metas = "module_meta dict"

section \<open>Looking a command up in the metadata\<close>

text \<open>
  \<^verbatim>\<open>load_command_meta\<close>: a subscript on a dictionary raises \<open>KeyError\<close> when the key is
  absent, and nothing in the method catches it. \<open>descend\<close> is the \<^verbatim>\<open>for idx in
  range(len(signature) - 1)\<close> loop.
\<close>

fun descend :: "sub_group \<Rightarrow> string list \<Rightarrow> nat list \<Rightarrow> error + sub_group" where
  "descend meta signature [] = Inr meta"
| "descend meta signature (idx # idxs) =
     (let key = py_join '' '' (take (idx + 1) signature) in
      case map_of (sub_groups meta) key of
        None \<Rightarrow> Inl (Raise KeyError key)
      | Some g \<Rightarrow> descend g signature idxs)"

definition load_command_meta :: "metas \<Rightarrow> string list \<Rightarrow> string \<Rightarrow> error + command_meta" where
  "load_command_meta ms signature module =
     (let file = ''az_'' @ module @ ''_meta.json'' in
      case map_of ms file of
        None \<Rightarrow> Inl (Raise KeyError file)
      | Some module_meta \<Rightarrow>
          (case descend (as_group module_meta) signature [0..<length signature - 1] of
             Inl e \<Rightarrow> Inl e
           | Inr meta \<Rightarrow>
               (let key = py_join '' '' signature in
                case map_of (commands meta) key of
                  None \<Rightarrow> Inl (Raise KeyError key)
                | Some c \<Rightarrow> Inr c)))"

text \<open>
  The lookup as the specification words it: the group reached at depth \<open>i\<close>, and what it
  means for the entry of a command to be absent (the module's document, an intermediate
  sub-group key, or the final command key).
\<close>

fun group_at :: "sub_group \<Rightarrow> string list \<Rightarrow> nat \<Rightarrow> sub_group option" where
  "group_at g signature 0 = Some g"
| "group_at g signature (Suc i) =
     (case group_at g signature i of
        None \<Rightarrow> None
      | Some h \<Rightarrow> map_of (sub_groups h) (py_join '' '' (take (Suc i) signature)))"

definition document_absent :: "metas \<Rightarrow> string \<Rightarrow> bool" where
  "document_absent ms module = (map_of ms (''az_'' @ module @ ''_meta.json'') = None)"

definition sub_group_key_absent :: "metas \<Rightarrow> string \<Rightarrow> string list \<Rightarrow> nat \<Rightarrow> bool" where
  \<comment> \<open>the groups down to depth \<open>i\<close> are there, and the key of depth \<open>i + 1\<close>, which is
      not the last, is absent from the sub-groups of the group at depth \<open>i\<close>\<close>
  "sub_group_key_absent ms module signature i =
     (Suc i < length signature
      \<and> (case map_of ms (''az_'' @ module @ ''_meta.json'') of
            None \<Rightarrow> False
          | Some mm \<Rightarrow>
              (case group_at (as_group mm) signature i of
                 None \<Rightarrow> False
               | Some h \<Rightarrow>
                   map_of (sub_groups h) (py_join '' '' (take (Suc i) signature)) = None)))"

definition command_key_absent :: "metas \<Rightarrow> string \<Rightarrow> string list \<Rightarrow> bool" where
  "command_key_absent ms module signature =
     (case map_of ms (''az_'' @ module @ ''_meta.json'') of
        None \<Rightarrow> False
      | Some mm \<Rightarrow>
          (case group_at (as_group mm) signature (length signature - 1) of
             None \<Rightarrow> False
           | Some h \<Rightarrow> map_of (commands h) (py_join '' '' signature) = None))"

text \<open>A small metadata set: module \<open>vm\<close> with the commands \<open>vm list\<close> and \<open>vm disk attach\<close>.\<close>

definition vm_meta :: module_meta where
  "vm_meta =
     ModuleMeta ''vm''
       (SubGroup []
          [(''vm'',
            SubGroup [(''vm list'', CommandMeta [])]
              [(''vm disk'', SubGroup [(''vm disk attach'', CommandMeta [])] [])])])"

definition vm_metas :: metas where
  "vm_metas = [(''az_vm_meta.json'', vm_meta)]"

section \<open>Building the command tree\<close>

text \<open>
  The tree is a dictionary whose values are either a module name (a leaf) or a nested
  dictionary. \<^verbatim>\<open>_attach_sub_group_to_node\<close> mutates the node it is given; the nodes are
  fresh dictionaries reachable by one path only, so the model returns the updated node
  and the caller stores it back under the same key. \<open>AList.update\<close> is the dictionary
  assignment: it replaces the value of a key in place and appends a new key at the end.
  When the node is a module name (a Python string), the item assignment or the
  subscript on it raises \<open>TypeError\<close>; of the built-in exceptions only the class is
  modelled, and for \<open>KeyError\<close> the key. The recursion limit of the interpreter is
  not modelled.
\<close>

datatype command_tree = Leaf string | Node "command_tree dict"

fun attach_commands :: "command_meta dict \<Rightarrow> command_tree \<Rightarrow> string \<Rightarrow> error + command_tree" where
  \<comment> \<open>\<^verbatim>\<open>for name, command in sub_group["commands"].items(): tree_node[name.split()[-1]] = module\<close>\<close>
  "attach_commands [] tree_node module = Inr tree_node"
| "attach_commands ((name, command) # rest) tree_node module =
     (case last_token name of
        Inl e \<Rightarrow> Inl e
      | Inr key \<Rightarrow>
          (case tree_node of
             Leaf owner \<Rightarrow> Inl (Raise TypeError [])
           | Node children \<Rightarrow>
               attach_commands rest (Node (AList.update key (Leaf module) children)) module))"

fun attach_sub_group_to_node :: "sub_group \<Rightarrow> command_tree \<Rightarrow> string \<Rightarrow> error + command_tree"
  and attach_sub_groups :: "sub_group dict \<Rightarrow> command_tree \<Rightarrow> string \<Rightarrow> error + command_tree"
  where
  "attach_sub_group_to_node (SubGroup cmds subs) tree_node module =
     (case attach_commands cmds tree_node module of
        Inl e \<Rightarrow> Inl e
      | Inr tree_node' \<Rightarrow> attach_sub_groups subs tree_node' module)"
| "attach_sub_groups [] tree_node module = Inr tree_node"
| "attach_sub_groups ((name, sub_group) # rest) tree_node module =
     (case last_token name of
        Inl e \<Rightarrow> Inl e
      | Inr key \<Rightarrow>
          (case tree_node of
             Leaf owner \<Rightarrow> Inl (Raise TypeError [])
           | Node children \<Rightarrow>
               (let children' =
                      (if \<not> has_key key children then AList.update key (Node []) children
                       else children)
                in case map_of children' key of
                     None \<Rightarrow> Inl (Raise KeyError key)
                   | Some next_tree_node \<Rightarrow>
                       (case attach_sub_group_to_node sub_group next_tree_node module of
                          Inl e \<Rightarrow> Inl e
                        | Inr next_tree_node' \<Rightarrow>
                            attach_sub_groups rest
                              (Node (AList.update key next_tree_node' children')) module))))"

fun build_loop :: "module_meta list \<Rightarrow> command_tree \<Rightarrow> error + command_tree" where
  \<comment> \<open>\<^verbatim>\<open>for meta in metas.values()\<close>\<close>
  "build_loop [] tree = Inr tree"
| "build_loop (meta # rest) tree =
     (case attach_sub_group_to_node (as_group meta) tree (module_name_of meta) of
        Inl e \<Rightarrow> Inl e
      | Inr tree' \<Rightarrow> build_loop rest tree')"

definition build_command_tree :: "metas \<Rightarrow> error + command_tree" where
  "build_command_tree ms = build_loop (map snd ms) (Node [])"

text \<open>Following the tokens of a path through the tree, one dictionary lookup per token.\<close>

fun walk :: "command_tree \<Rightarrow> string list \<Rightarrow> command_tree option" where
  "walk t [] = Some t"
| "walk (Leaf owner) (k # ks) = None"
| "walk (Node children) (k # ks) =
     (case map_of children k of None \<Rightarrow> None | Some c \<Rightarrow> walk c ks)"

text \<open>
  The paths of a module's metadata, as the recursion attaches them: each level of
  nesting contributes the last token of its key. \<open>cmd_paths\<close> are the paths of the
  commands, \<open>grp_paths\<close> those of the sub-groups, \<open>command_keys\<close> the keys of the
  commands as the metadata spells them.
\<close>

definition tok :: "string \<Rightarrow> string" where
  "tok name = last (py_split name)"

fun cmd_paths :: "sub_group \<Rightarrow> string list list"
  and sub_cmd_paths :: "sub_group dict \<Rightarrow> string list list" where
  "cmd_paths (SubGroup cmds subs) = map (\<lambda>e. [tok (fst e)]) cmds @ sub_cmd_paths subs"
| "sub_cmd_paths [] = []"
| "sub_cmd_paths ((name, g) # rest) = map ((#) (tok name)) (cmd_paths g) @ sub_cmd_paths rest"

fun grp_paths :: "sub_group \<Rightarrow> string list list"
  and sub_grp_paths :: "sub_group dict \<Rightarrow> string list list" where
  "grp_paths (SubGroup cmds subs) = sub_grp_paths subs"
| "sub_grp_paths [] = []"
| "sub_grp_paths ((name, g) # rest) =
     [tok name] # map ((#) (tok name)) (grp_paths g) @ sub_grp_paths rest"

fun command_keys :: "sub_group \<Rightarrow> string list"
  and sub_command_keys :: "sub_group dict \<Rightarrow> string list" where
  "command_keys (SubGroup cmds subs) = map fst cmds @ sub_command_keys subs"
| "sub_command_keys [] = []"
| "sub_command_keys ((name, g) # rest) = command_keys g @ sub_command_keys rest"

fun keys_ok :: "sub_group \<Rightarrow> bool"
  and sub_keys_ok :: "sub_group dict \<Rightarrow> bool" where
  \<comment> \<open>every key has at least one token\<close>
  "keys_ok (SubGroup cmds subs) = (list_all (\<lambda>e. py_split (fst e) \<noteq> []) cmds \<and> sub_keys_ok subs)"
| "sub_keys_ok [] = True"
| "sub_keys_ok ((name, g) # rest) = (py_split name \<noteq> [] \<and> keys_ok g \<and> sub_keys_ok rest)"

fun path_keyed :: "string list \<Rightarrow> sub_group \<Rightarrow> bool"
  and sub_path_keyed :: "string list \<Rightarrow> sub_group dict \<Rightarrow> bool" where
  \<comment> \<open>below the path \<open>pre\<close>, the tokens of every key are the path from the root to the entry\<close>
  "path_keyed pre (SubGroup cmds subs) =
     (list_all (\<lambda>e. py_split (fst e) \<noteq> [] \<and> butlast (py_split (fst e)) = pre) cmds
      \<and> sub_path_keyed pre subs)"
| "sub_path_keyed pre [] = True"
| "sub_path_keyed pre ((name, g) # rest) =
     (py_split name \<noteq> [] \<and> butlast (py_split name) = pre
      \<and> path_keyed (py_split name) g \<and> sub_path_keyed pre rest)"

definition all_cmd_paths :: "module_meta list \<Rightarrow> string list list" where
  "all_cmd_paths mms = concat (map (\<lambda>mm. cmd_paths (as_group mm)) mms)"

definition all_grp_paths :: "module_meta list \<Rightarrow> string list list" where
  "all_grp_paths mms = concat (map (\<lambda>mm. grp_paths (as_group mm)) mms)"

definition conflict_free :: "module_meta list \<Rightarrow> bool" where
  \<comment> \<open>no command path is a sub-group path or a prefix of one\<close>
  "conflict_free mms =
     list_all (\<lambda>c. list_all (\<lambda>q. \<not> prefix c q) (all_grp_paths mms)) (all_cmd_paths mms)"

fun last_owner :: "module_meta list \<Rightarrow> string list \<Rightarrow> string option" where
  \<comment> \<open>the module processed last among those that declare a command at the path\<close>
  "last_owner [] p = None"
| "last_owner (mm # rest) p =
     (case last_owner rest p of
        Some m \<Rightarrow> Some m
      | None \<Rightarrow> if p \<in> set (cmd_paths (as_group mm)) then Some (module_name_of mm) else None)"

text \<open>
  Two modules that both declare \<open>storage list\<close>, a module with a sub-group at that
  path, and a module with a command at the path \<open>storage\<close>.
\<close>

definition storage_a :: module_meta where
  "storage_a =
     ModuleMeta ''storage''
       (SubGroup [] [(''storage'', SubGroup [(''storage list'', CommandMeta [])] [])])"

definition storage_b :: module_meta where
  "storage_b =
     ModuleMeta ''storage-preview''
       (SubGroup [] [(''storage'', SubGroup [(''storage list'', CommandMeta [])] [])])"

definition storage_sub :: module_meta where
  "storage_sub =
     ModuleMeta ''storage-blob''
       (SubGroup []
          [(''storage'',
            SubGroup []
              [(''storage list'', SubGroup [(''storage list blobs'', CommandMeta [])] [])])])"

definition storage_top :: module_meta where
  "storage_top = ModuleMeta ''storage-cli'' (SubGroup [(''storage'', CommandMeta [])] [])"

text \<open>
  The leaves of a tree, and the conditions under which one group is attached to a
  node: no command path of the group is a prefix of one of its sub-group paths, and no
  leaf of the node lies on a sub-group path. \<open>leaves_after\<close> says which leaves a node
  has once the command paths \<open>cs\<close> of module \<open>m\<close> are attached to it.
\<close>

definition leaf_at :: "command_tree \<Rightarrow> string list \<Rightarrow> string \<Rightarrow> bool" where
  "leaf_at t p m = (walk t p = Some (Leaf m))"

definition no_prefix_in :: "string list list \<Rightarrow> string list list \<Rightarrow> bool" where
  "no_prefix_in cs qs = (\<forall>c \<in> set cs. \<forall>q \<in> set qs. \<not> prefix c q)"

definition leaves_avoid :: "command_tree \<Rightarrow> string list list \<Rightarrow> bool" where
  "leaves_avoid t qs = (\<forall>p m. leaf_at t p m \<longrightarrow> (\<forall>q \<in> set qs. \<not> prefix p q))"

definition leaves_after ::
  "command_tree \<Rightarrow> command_tree \<Rightarrow> string list list \<Rightarrow> string \<Rightarrow> bool" where
  "leaves_after t' t cs m =
     (\<forall>p m'. leaf_at t' p m' \<longleftrightarrow>
        (p \<in> set cs \<and> m' = m) \<or> (leaf_at t p m' \<and> (\<forall>c \<in> set cs. \<not> prefix c p)))"

fun declared_once :: "module_meta list \<Rightarrow> bool" where
  "declared_once [] = True"
| "declared_once (mm # rest) =
     (list_all (\<lambda>c. c \<notin> set (all_cmd_paths rest)) (cmd_paths (as_group mm))
      \<and> declared_once rest)"

definition sample_metas :: metas where
  "sample_metas =
     [(''az_storage_meta.json'', storage_a), (''az_storage-preview_meta.json'', storage_b)]"

definition clash_metas :: metas where
  "clash_metas = sample_metas @ [(''az_storage-blob_meta.json'', storage_sub)]"

definition shadow_metas :: metas where
  "shadow_metas = sample_metas @ [(''az_storage-cli_meta.json'', storage_top)]"

section \<open>The validator\<close>

text \<open>
  A namespace is the dictionary of the attributes that the parser set; an attribute that
  was not supplied holds \<open>JNull\<close>, and reading an attribute that is not there raises
  \<open>AttributeError\<close>. \<^verbatim>\<open>parse_command\<close> returns an object with the fields
  \<open>signature\<close>, \<open>module\<close> and \<open>parameters\<close>.
\<close>

type_synonym namespace = "json dict"

record parsed_command =
  signature :: "string list"
  module :: string
  parameters :: "string list"

record 'gp validator =
  metas :: metas
  command_tree :: command_tree
  global_parser :: 'gp

text \<open>
  \<^verbatim>\<open>parse_command\<close> (module \<^verbatim>\<open>cmd_tree\<close>) and \<^verbatim>\<open>CLIParser\<close> (module
  \<^verbatim>\<open>cmd_meta.parser\<close>) are called by the validator and are parameters of its model.
  A call receives its arguments, may raise, and may change the objects it can reach:
  it is a function from the state of the validator to a result and a state.
\<close>

type_synonym ('a, 'gp) call = "'gp validator \<Rightarrow> (error + 'a) \<times> 'gp validator"

record ('gp, 'p) collaborators =
  parse_command :: "command_tree \<Rightarrow> string \<Rightarrow> bool \<Rightarrow> (parsed_command, 'gp) call"
  CLIParser_init :: "'gp \<Rightarrow> ('p, 'gp) call"
  load_meta :: "'p \<Rightarrow> command_meta \<Rightarrow> ('p, 'gp) call"
  parse_args :: "'p \<Rightarrow> string list \<Rightarrow> (namespace, 'gp) call"

definition build_parser ::
  "('gp, 'p) collaborators \<Rightarrow> command_meta \<Rightarrow> ('p, 'gp) call" where
  "build_parser C meta v =
     (case CLIParser_init C (global_parser v) v of
        (Inl e, v') \<Rightarrow> (Inl e, v')
      | (Inr parser, v') \<Rightarrow> load_meta C parser meta v')"

fun join_value :: "string \<Rightarrow> json \<Rightarrow> error + string" where
  \<comment> \<open>\<^verbatim>\<open>sep.join(v)\<close>: the items of a list, the characters of a string, the keys of a
      dictionary; \<open>TypeError\<close> for an item that is not a string and for a value that is
      not iterable\<close>
  "join_value sep (JArr xs) =
     (if list_all (\<lambda>x. case x of JStr s \<Rightarrow> True | _ \<Rightarrow> False) xs
      then Inr (py_join sep (map (\<lambda>x. case x of JStr s \<Rightarrow> s | _ \<Rightarrow> []) xs))
      else Inl (Raise TypeError []))"
| "join_value sep (JStr s) = Inr (py_join sep (map (\<lambda>c. [c]) s))"
| "join_value sep (JObj kvs) = Inr (py_join sep (map fst kvs))"
| "join_value sep v = Inl (Raise TypeError [])"

definition joined_options :: "param \<Rightarrow> error + string" where
  \<comment> \<open>\<^verbatim>\<open>'/'.join(param['options'])\<close>\<close>
  "joined_options param =
     (case map_of param ''options'' of
        None \<Rightarrow> Inl (Raise KeyError ''options'')
      | Some v \<Rightarrow> join_value ''/'' v)"

definition required_and_absent :: "namespace \<Rightarrow> param \<Rightarrow> error + bool" where
  \<comment> \<open>\<^verbatim>\<open>'required' in param and namespace.__getattribute__(param['name']) is None\<close>\<close>
  "required_and_absent namespace param =
     (if has_key ''required'' param then
        (case map_of param ''name'' of
           None \<Rightarrow> Inl (Raise KeyError ''name'')
         | Some (JStr name) \<Rightarrow>
             (case map_of namespace name of
                None \<Rightarrow> Inl (Raise AttributeError name)
              | Some value \<Rightarrow> Inr (value = JNull))
         | Some other \<Rightarrow> Inl (Raise TypeError []))
      else Inr False)"

definition check_param :: "namespace \<Rightarrow> param \<Rightarrow> string list \<Rightarrow> error + string list" where
  \<comment> \<open>\<^verbatim>\<open>if ...: missing_args.append('/'.join(param['options']))\<close>\<close>
  "check_param namespace param missing_args =
     (case required_and_absent namespace param of
        Inl e \<Rightarrow> Inl e
      | Inr b \<Rightarrow>
          if b then
            (case joined_options param of
               Inl e \<Rightarrow> Inl e
             | Inr s \<Rightarrow> Inr (missing_args @ [s]))
          else Inr missing_args)"

fun missing_with_ids :: "namespace \<Rightarrow> param list \<Rightarrow> string list \<Rightarrow> error + string list" where
  \<comment> \<open>the loop taken when \<^verbatim>\<open>namespace.ids is not None\<close>\<close>
  "missing_with_ids namespace [] missing_args = Inr missing_args"
| "missing_with_ids namespace (param # rest) missing_args =
     (if has_key ''id_part'' param then missing_with_ids namespace rest missing_args
      else (case check_param namespace param missing_args of
              Inl e \<Rightarrow> Inl e
            | Inr missing_args' \<Rightarrow> missing_with_ids namespace rest missing_args'))"

fun missing_without_ids :: "namespace \<Rightarrow> param list \<Rightarrow> string list \<Rightarrow> error + string list" where
  \<comment> \<open>the loop taken otherwise\<close>
  "missing_without_ids namespace [] missing_args = Inr missing_args"
| "missing_without_ids namespace (param # rest) missing_args =
     (case check_param namespace param missing_args of
        Inl e \<Rightarrow> Inl e
      | Inr missing_args' \<Rightarrow> missing_without_ids namespace rest missing_args')"

definition required_missing :: "param list \<Rightarrow> namespace \<Rightarrow> error + string list" where
  \<comment> \<open>lines 30 to 42 of \<^verbatim>\<open>validate_command\<close>: the list \<^verbatim>\<open>missing_args\<close>\<close>
  "required_missing params namespace =
     (case map_of namespace ''ids'' of
        None \<Rightarrow> Inl (Raise AttributeError ''ids'')
      | Some ids \<Rightarrow>
          if ids \<noteq> JNull then missing_with_ids namespace params []
          else missing_without_ids namespace params [])"

definition validate_command ::
  "('gp, 'p) collaborators \<Rightarrow> string \<Rightarrow> bool \<Rightarrow> (namespace option, 'gp) call" where
  \<comment> \<open>the value is what the Python function returns; it has no \<^verbatim>\<open>return\<close> statement,
      so that value is \<^verbatim>\<open>None\<close>\<close>
  "validate_command C command comments v =
     (case parse_command C (command_tree v) command comments v of
        (Inl e, v1) \<Rightarrow> (Inl e, v1)
      | (Inr cmd, v1) \<Rightarrow>
          (case load_command_meta (metas v1) (signature cmd) (module cmd) of
             Inl e \<Rightarrow> (Inl e, v1)
           | Inr meta \<Rightarrow>
               (case build_parser C meta v1 of
                  (Inl e, v2) \<Rightarrow> (Inl e, v2)
                | (Inr parser, v2) \<Rightarrow>
                    (case parse_args C parser (parameters cmd) v2 of
                       (Inl e, v3) \<Rightarrow> (Inl e, v3)
                     | (Inr namespace, v3) \<Rightarrow>
                         (case required_missing (meta_parameters meta) namespace of
                            Inl e \<Rightarrow> (Inl e, v3)
                          | Inr missing_args \<Rightarrow>
                              if length missing_args > 0
                              then (Inl (Raise ValidateFailureException
                                      (''the following arguments are required: ''
                                       @ py_join '', '' missing_args @ '' '')), v3)
                              else (Inr None, v3))))))"

text \<open>
  The policy as the specification words it. A parameter is marked \<open>required\<close> or
  \<open>id_part\<close> when its metadata has that key; its value is absent when the attribute of
  its name is \<^verbatim>\<open>None\<close>; the \<open>ids\<close> slot is present when it is not \<^verbatim>\<open>None\<close>.
  \<open>well_formed_param\<close> is the schema of a parameter: a name that is an attribute of the
  namespace, and a list of option strings.
\<close>

definition value_absent :: "namespace \<Rightarrow> param \<Rightarrow> bool" where
  "value_absent ns p =
     (case map_of p ''name'' of Some (JStr name) \<Rightarrow> map_of ns name = Some JNull | _ \<Rightarrow> False)"

definition ids_present :: "namespace \<Rightarrow> bool" where
  "ids_present ns = (case map_of ns ''ids'' of Some v \<Rightarrow> v \<noteq> JNull | None \<Rightarrow> False)"

definition ids_absent :: "namespace \<Rightarrow> bool" where
  "ids_absent ns = (map_of ns ''ids'' = Some JNull)"

definition option_spellings :: "param \<Rightarrow> string" where
  "option_spellings p =
     (case map_of p ''options'' of
        Some (JArr xs) \<Rightarrow> py_join ''/'' (map (\<lambda>x. case x of JStr s \<Rightarrow> s | _ \<Rightarrow> []) xs)
      | _ \<Rightarrow> [])"

definition well_formed_param :: "namespace \<Rightarrow> param \<Rightarrow> bool" where
  "well_formed_param ns p =
     ((case map_of p ''name'' of Some (JStr name) \<Rightarrow> has_key name ns | _ \<Rightarrow> False)
      \<and> (case map_of p ''options'' of
            Some (JArr xs) \<Rightarrow> list_all (\<lambda>x. case x of JStr s \<Rightarrow> True | _ \<Rightarrow> False) xs
          | _ \<Rightarrow> False))"

definition missing_params :: "namespace \<Rightarrow> param list \<Rightarrow> param list" where
  "missing_params ns params =
     (if ids_present ns
      then filter (\<lambda>p. has_key ''required'' p \<and> \<not> has_key ''id_part'' p \<and> value_absent ns p) params
      else filter (\<lambda>p. has_key ''required'' p \<and> value_absent ns p) params)"

definition revalue :: "(string \<Rightarrow> json \<Rightarrow> json) \<Rightarrow> param \<Rightarrow> param" where
  \<comment> \<open>the same parameter with other values under the keys \<open>required\<close> and \<open>id_part\<close>\<close>
  "revalue f p =
     map (\<lambda>e. if fst e = ''required'' \<or> fst e = ''id_part'' then (fst e, f (fst e) (snd e)) else e) p"

text \<open>
  Sample data: the command \<open>group create\<close> of module \<open>resource\<close> with a required
  \<open>--name/-n\<close>, a command whose required parameters are \<open>a\<close> (an id part) and \<open>b\<close>, and
  stand-ins for the collaborators that return fixed results and change nothing.
\<close>

definition name_param :: param where
  "name_param =
     [(''name'', JStr ''name''), (''options'', JArr [JStr ''--name'', JStr ''-n'']),
      (''required'', JBool True)]"

definition location_param :: param where
  "location_param =
     [(''name'', JStr ''location''), (''options'', JArr [JStr ''--location'', JStr ''-l''])]"

definition a_param :: param where
  "a_param =
     [(''name'', JStr ''a''), (''options'', JArr [JStr ''--a'']), (''required'', JBool True),
      (''id_part'', JStr ''name'')]"

definition b_param :: param where
  "b_param =
     [(''name'', JStr ''b''), (''options'', JArr [JStr ''--b'', JStr ''-b'']),
      (''required'', JBool True)]"

definition resource_metas :: metas where
  "resource_metas =
     [(''az_resource_meta.json'',
       ModuleMeta ''resource''
         (SubGroup []
            [(''group'',
              SubGroup [(''group create'', CommandMeta [name_param, location_param])] [])]))]"

definition resource_validator :: "unit validator" where
  "resource_validator =
     \<lparr>metas = resource_metas,
      command_tree = Node [(''group'', Node [(''create'', Leaf ''resource'')])],
      global_parser = ()\<rparr>"

definition fixed_collaborators :: "namespace \<Rightarrow> (unit, unit) collaborators" where
  \<comment> \<open>every command is read as \<open>group create\<close>, and parsing its arguments gives \<open>ns\<close>\<close>
  "fixed_collaborators ns =
     \<lparr>parse_command = (\<lambda>tree command comments v.
        (Inr \<lparr>signature = [''group'', ''create''], module = ''resource'',
              parameters = drop 3 (py_split command)\<rparr>, v)),
      CLIParser_init = (\<lambda>gp v. (Inr (), v)),
      load_meta = (\<lambda>parser meta v. (Inr (), v)),
      parse_args = (\<lambda>parser args v. (Inr ns, v))\<rparr>"

text \<open>
  Modelled from the spec: \<^verbatim>\<open>parse_command\<close> and \<^verbatim>\<open>CLIParser\<close> are not among the
  sources. The specification says that every stage of the pipeline is a pure function
  of the previous state and the static collaborators, and that the tree and the
  metadata are never mutated after construction: a collaborator is read-only when each
  of its calls returns the state it was given.
\<close>

definition read_only :: "('gp, 'p) collaborators \<Rightarrow> bool" where
  "read_only C =
     ((\<forall>t c b s. snd (parse_command C t c b s) = s)
      \<and> (\<forall>gp s. snd (CLIParser_init C gp s) = s)
      \<and> (\<forall>p m s. snd (load_meta C p m s) = s)
      \<and> (\<forall>p a s. snd (parse_args C p a s) = s))"

text \<open>Namespaces and parameters for the examples.\<close>

definition good_ns :: namespace where
  "good_ns = [(''ids'', JNull), (''name'', JStr ''rg1''), (''location'', JStr ''eastus'')]"

definition no_name_ns :: namespace where
  "no_name_ns = [(''ids'', JNull), (''name'', JNull), (''location'', JStr ''eastus'')]"

definition ids_ns :: namespace where
  "ids_ns = [(''ids'', JArr [JStr ''X'']), (''a'', JNull), (''b'', JNull)]"

definition no_ids_ns :: namespace where
  "no_ids_ns = [(''ids'', JNull), (''a'', JNull), (''b'', JNull)]"

definition not_required_param :: param where
  "not_required_param =
     [(''name'', JStr ''tags''), (''options'', JArr [JStr ''--tags'']), (''required'', JBool False)]"

definition unmarked_param :: param where
  \<comment> \<open>\<open>not_required_param\<close> without the key \<open>required\<close>\<close>
  "unmarked_param = [(''name'', JStr ''tags''), (''options'', JArr [JStr ''--tags''])]"

definition null_id_part_param :: param where
  "null_id_part_param =
     [(''name'', JStr ''name''), (''options'', JArr [JStr ''--name'', JStr ''-n'']),
      (''required'', JBool True), (''id_part'', JNull)]"

definition key_ns :: namespace where
  "key_ns = [(''ids'', JArr [JStr ''X'']), (''tags'', JNull), (''name'', JNull)]"

definition two_module_metas :: metas where
  "two_module_metas = vm_metas @ [(''az_storage_meta.json'', storage_a)]"

section \<open>The exception hierarchy\<close>

text \<open>
  C10. Each of \<open>ParserFailureException\<close>, \<open>ParserHelpException\<close>,
  \<open>EmptyCommandException\<close>, \<open>NonAzCommandException\<close>,
  \<open>CommandTreeCorruptedException\<close> and \<open>UnknownCommandException\<close> is a subclass of
  \<open>ValidateFailureException\<close>, \<open>UnknownTypeException\<close> is not, and a handler for
  \<open>ValidateFailureException\<close> therefore also catches the exception raised for a help
  request.
\<close>

theorem taxonomy_under_ValidateFailureException:
  "issubclass ParserFailureException ValidateFailureException
   \<and> issubclass ParserHelpException ValidateFailureException
   \<and> issubclass EmptyCommandException ValidateFailureException
   \<and> issubclass NonAzCommandException ValidateFailureException
   \<and> issubclass CommandTreeCorruptedException ValidateFailureException
   \<and> issubclass UnknownCommandException ValidateFailureException
   \<and> \<not> issubclass UnknownTypeException ValidateFailureException
   \<and> caught_by ValidateFailureException ParserHelpException_init"
  by (simp add: issubclass.simps caught_by_def ParserHelpException_init_def)

section \<open>What the metadata lookup raises\<close>

text \<open>
  The loop of \<^verbatim>\<open>load_command_meta\<close> reaches the group at depth \<open>n\<close> when every key on
  the way is present, and stops with the \<open>KeyError\<close> of the first absent key.
\<close>

lemma descend_append:
  "descend g sg (xs @ ys) =
     (case descend g sg xs of Inl e \<Rightarrow> Inl e | Inr h \<Rightarrow> descend h sg ys)"
  by (induction xs arbitrary: g) (auto simp: Let_def split: option.splits)

lemma descend_group_at:
  "group_at g sg n = Some h \<Longrightarrow> descend g sg [0..<n] = Inr h"
proof (induction n arbitrary: h)
  case 0
  then show ?case by simp
next
  case (Suc n)
  then obtain h' where h': "group_at g sg n = Some h'"
    and step: "map_of (sub_groups h') (py_join '' '' (take (Suc n) sg)) = Some h"
    by (auto split: option.splits)
  from Suc.IH [OF h'] step show ?case
    by (simp add: descend_append)
qed

lemma descend_key_absent:
  assumes "group_at g sg i = Some h"
    and "map_of (sub_groups h) (py_join '' '' (take (Suc i) sg)) = None"
    and "i < n"
  shows "descend g sg [0..<n] = Inl (Raise KeyError (py_join '' '' (take (Suc i) sg)))"
proof -
  from \<open>i < n\<close> have "[0..<n] = [0..<i] @ i # [Suc i..<n]"
    by (metis le_add1 less_imp_add_positive upt_add_eq_append upt_conv_Cons zero_le add.commute less_imp_le_nat upt_rec)
  with assms(1,2) show ?thesis
    by (simp add: descend_append descend_group_at)
qed

text \<open>
  C5, as the code has it. \<^verbatim>\<open>load_command_meta\<close> fails with the built-in \<open>KeyError\<close> of
  the failed subscript: its key is the file name \<^verbatim>\<open>az_<module>_meta.json\<close> when the
  module's document is absent, the space-joined prefix of the signature when that
  intermediate sub-group key is absent, and the space-joined signature when the final
  command key is absent. A handler for \<open>UnknownCommandException\<close> does not catch a
  \<open>KeyError\<close>.
\<close>

theorem load_command_meta_absent_KeyError:
  "(document_absent ms modname \<longrightarrow>
      load_command_meta ms sg modname = Inl (Raise KeyError (''az_'' @ modname @ ''_meta.json'')))
   \<and> (sub_group_key_absent ms modname sg i \<longrightarrow>
      load_command_meta ms sg modname = Inl (Raise KeyError (py_join '' '' (take (Suc i) sg))))
   \<and> (command_key_absent ms modname sg \<longrightarrow>
      load_command_meta ms sg modname = Inl (Raise KeyError (py_join '' '' sg)))
   \<and> \<not> caught_by UnknownCommandException (Raise KeyError k)"
proof (intro conjI impI)
  assume "document_absent ms modname"
  then show "load_command_meta ms sg modname
      = Inl (Raise KeyError (''az_'' @ modname @ ''_meta.json''))"
    by (simp add: document_absent_def load_command_meta_def)
next
  assume "sub_group_key_absent ms modname sg i"
  then obtain mm h where "map_of ms (''az_'' @ modname @ ''_meta.json'') = Some mm"
    and "i < length sg - 1" and "group_at (as_group mm) sg i = Some h"
    and "map_of (sub_groups h) (py_join '' '' (take (Suc i) sg)) = None"
    unfolding sub_group_key_absent_def by (auto split: option.splits)
  then show "load_command_meta ms sg modname
      = Inl (Raise KeyError (py_join '' '' (take (Suc i) sg)))"
    using descend_key_absent [of "as_group mm" sg i h "length sg - 1"]
    by (simp add: load_command_meta_def)
next
  assume "command_key_absent ms modname sg"
  then obtain mm h where "map_of ms (''az_'' @ modname @ ''_meta.json'') = Some mm"
    and "group_at (as_group mm) sg (length sg - 1) = Some h"
    and "map_of (commands h) (py_join '' '' sg) = None"
    unfolding command_key_absent_def by (auto split: option.splits)
  then show "load_command_meta ms sg modname = Inl (Raise KeyError (py_join '' '' sg))"
    using descend_group_at [of "as_group mm" sg "length sg - 1" h]
    by (simp add: load_command_meta_def)
next
  show "\<not> caught_by UnknownCommandException (Raise KeyError k)"
    by (simp add: caught_by_def issubclass.simps)
qed

theorem load_command_meta_absent_KeyError_witness:
  "document_absent vm_metas ''storage''
   \<and> load_command_meta vm_metas [''storage'', ''list''] ''storage''
       = Inl (Raise KeyError ''az_storage_meta.json'')
   \<and> sub_group_key_absent vm_metas ''vm'' [''vm'', ''image'', ''list''] 1
   \<and> load_command_meta vm_metas [''vm'', ''image'', ''list''] ''vm''
       = Inl (Raise KeyError ''vm image'')
   \<and> command_key_absent vm_metas ''vm'' [''vm'', ''show'']
   \<and> load_command_meta vm_metas [''vm'', ''show''] ''vm'' = Inl (Raise KeyError ''vm show'')"
proof -
  have a: "document_absent vm_metas ''storage''"
    by (simp add: document_absent_def vm_metas_def)
  have b: "sub_group_key_absent vm_metas ''vm'' [''vm'', ''image'', ''list''] 1"
    by (simp add: sub_group_key_absent_def vm_metas_def vm_meta_def)
  have c: "command_key_absent vm_metas ''vm'' [''vm'', ''show'']"
    by (simp add: command_key_absent_def vm_metas_def vm_meta_def)
  from load_command_meta_absent_KeyError [of vm_metas "''storage''" "[''storage'', ''list'']"] a
  have 1: "load_command_meta vm_metas [''storage'', ''list''] ''storage''
       = Inl (Raise KeyError (''az_'' @ ''storage'' @ ''_meta.json''))"
    by blast
  from load_command_meta_absent_KeyError [of vm_metas "''vm''" "[''vm'', ''image'', ''list'']" 1] b
  have 2: "load_command_meta vm_metas [''vm'', ''image'', ''list''] ''vm''
       = Inl (Raise KeyError (py_join '' '' (take (Suc 1) [''vm'', ''image'', ''list''])))"
    by blast
  from load_command_meta_absent_KeyError [of vm_metas "''vm''" "[''vm'', ''show'']"] c
  have 3: "load_command_meta vm_metas [''vm'', ''show''] ''vm''
       = Inl (Raise KeyError (py_join '' '' [''vm'', ''show'']))"
    by blast
  from a b c 1 2 3 show ?thesis by simp
qed

text \<open>
  C5, as the specification states it, fails: on the sample metadata each of the three
  kinds of absence raises \<open>KeyError\<close>, which is not an \<open>UnknownCommandException\<close>.
\<close>

theorem load_command_meta_not_UnknownCommandException:
  "document_absent vm_metas ''network''
   \<and> load_command_meta vm_metas [''vm'', ''list''] ''network''
       = Inl (Raise KeyError ''az_network_meta.json'')
   \<and> sub_group_key_absent vm_metas ''vm'' [''vm'', ''nic'', ''list''] 1
   \<and> load_command_meta vm_metas [''vm'', ''nic'', ''list''] ''vm''
       = Inl (Raise KeyError ''vm nic'')
   \<and> command_key_absent vm_metas ''vm'' [''vm'', ''disk'', ''detach'']
   \<and> load_command_meta vm_metas [''vm'', ''disk'', ''detach''] ''vm''
       = Inl (Raise KeyError ''vm disk detach'')
   \<and> \<not> issubclass KeyError UnknownCommandException"
proof -
  have a: "document_absent vm_metas ''network''"
    by (simp add: document_absent_def vm_metas_def)
  have b: "load_command_meta vm_metas [''vm'', ''list''] ''network''
       = Inl (Raise KeyError ''az_network_meta.json'')"
    by (simp add: load_command_meta_def vm_metas_def)
  have c: "sub_group_key_absent vm_metas ''vm'' [''vm'', ''nic'', ''list''] 1"
    by (simp add: sub_group_key_absent_def vm_metas_def vm_meta_def)
  have d: "load_command_meta vm_metas [''vm'', ''nic'', ''list''] ''vm''
       = Inl (Raise KeyError ''vm nic'')"
    by (simp add: load_command_meta_def vm_metas_def vm_meta_def upt_conv_Cons)
  have e: "command_key_absent vm_metas ''vm'' [''vm'', ''disk'', ''detach'']"
    by (simp add: command_key_absent_def vm_metas_def vm_meta_def numeral_2_eq_2)
  have f: "load_command_meta vm_metas [''vm'', ''disk'', ''detach''] ''vm''
       = Inl (Raise KeyError ''vm disk detach'')"
    by (simp add: load_command_meta_def vm_metas_def vm_meta_def upt_conv_Cons)
  have g: "\<not> issubclass KeyError UnknownCommandException"
    by (simp add: issubclass.simps)
  from a b c d e f g show ?thesis by blast
qed

section \<open>The leaves of the command tree\<close>

text \<open>
  Attaching a group to a node succeeds when no leaf stands where a sub-group goes, and
  then the leaves of the node are the command paths of the group, owned by the module,
  together with the old leaves that no command path of the group overwrites
  (\<open>attach_leaves\<close>). Over the loop of \<^verbatim>\<open>build_command_tree\<close> this gives the leaves of
  the built tree: each declared command path, owned by the module processed last
  among those that declare it (\<open>build_command_tree_leaves\<close>).
\<close>

lemma py_split_no_break_space:
  "py_split (''x'' @ [CHR 0xA0] @ ''list'') = [''x'', ''list'']"
  "py_split (''x'' @ [CHR 0x85] @ ''list'') = [''x'', ''list'']"
  by (simp_all add: py_split_def py_isspace_def)

lemma last_token_tok: "py_split name \<noteq> [] \<Longrightarrow> last_token name = Inr (tok name)"
  by (cases "py_split name") (simp_all add: last_token_def tok_def)

lemma leaf_at_Node_Nil [simp]: "leaf_at (Node ch) [] m = False"
  by (simp add: leaf_at_def)

lemma leaf_at_Leaf [simp]: "leaf_at (Leaf m') p m \<longleftrightarrow> p = [] \<and> m' = m"
  by (cases p) (simp_all add: leaf_at_def)

lemma leaf_at_Node_Cons:
  "leaf_at (Node ch) (x # xs) m = (\<exists>c. map_of ch x = Some c \<and> leaf_at c xs m)"
  by (simp add: leaf_at_def split: option.splits)

lemma leaf_at_update:
  "leaf_at (Node (AList.update k v ch)) (x # xs) m =
     (if x = k then leaf_at v xs m else leaf_at (Node ch) (x # xs) m)"
  by (simp add: leaf_at_Node_Cons update_conv')

lemma leaves_after_trans:
  assumes "leaves_after t1 t cs1 m" and "leaves_after t2 t1 cs2 m"
    and "\<forall>p \<in> set cs1. \<forall>c \<in> set cs2. prefix c p \<longrightarrow> c = p"
  shows "leaves_after t2 t (cs1 @ cs2) m"
  using assms unfolding leaves_after_def by (auto; blast)

lemma leaves_after_Nil: "leaves_after t t [] m"
  by (simp add: leaves_after_def)

lemma attach_commands_leaves:
  assumes "list_all (\<lambda>e. py_split (fst e) \<noteq> []) cmds"
  shows "\<exists>ch'. attach_commands cmds (Node ch) m = Inr (Node ch')
           \<and> leaves_after (Node ch') (Node ch) (map (\<lambda>e. [tok (fst e)]) cmds) m"
  using assms
proof (induction cmds arbitrary: ch)
  case Nil
  then show ?case by (simp add: leaves_after_Nil)
next
  case (Cons e cmds)
  obtain name c where e: "e = (name, c)" by (cases e)
  let ?k = "tok name"
  let ?ch1 = "AList.update ?k (Leaf m) ch"
  from Cons.prems e have ok: "py_split name \<noteq> []" and rest: "list_all (\<lambda>e. py_split (fst e) \<noteq> []) cmds"
    by simp_all
  from Cons.IH [OF rest, of ?ch1] obtain ch' where
    run: "attach_commands cmds (Node ?ch1) m = Inr (Node ch')"
    and la: "leaves_after (Node ch') (Node ?ch1) (map (\<lambda>e. [tok (fst e)]) cmds) m"
    by blast
  have step: "leaves_after (Node ?ch1) (Node ch) [[?k]] m"
    unfolding leaves_after_def
  proof (intro allI)
    fix p m'
    show "leaf_at (Node ?ch1) p m' \<longleftrightarrow>
        (p \<in> set [[?k]] \<and> m' = m) \<or> (leaf_at (Node ch) p m' \<and> (\<forall>c \<in> set [[?k]]. \<not> prefix c p))"
      by (cases p) (auto simp: leaf_at_update)
  qed
  have inc: "\<forall>p \<in> set [[?k]]. \<forall>c \<in> set (map (\<lambda>e. [tok (fst e)]) cmds). prefix c p \<longrightarrow> c = p"
    by auto
  from leaves_after_trans [OF step la inc] run ok e show ?case
    by (simp add: last_token_tok)
qed

lemma cmd_paths_shape:
  "c \<in> set (cmd_paths g) \<Longrightarrow> c \<noteq> [] \<and> (butlast c = [] \<or> butlast c \<in> set (grp_paths g))"
  "c \<in> set (sub_cmd_paths subs) \<Longrightarrow>
     c \<noteq> [] \<and> butlast c \<noteq> [] \<and> butlast c \<in> set (sub_grp_paths subs)"
proof (induction g and subs arbitrary: c and c rule: cmd_paths_sub_cmd_paths.induct)
  case (1 cmds subs)
  then show ?case by auto
next
  case 2
  then show ?case by simp
next
  case (3 name g rest)
  from "3.prems" consider (here) d where "c = tok name # d" "d \<in> set (cmd_paths g)"
    | (later) "c \<in> set (sub_cmd_paths rest)"
    by auto
  then show ?case
  proof cases
    case here
    with "3.IH"(1) [of d] show ?thesis by (cases "butlast d = []") auto
  next
    case later
    with "3.IH"(2) [of c] show ?thesis by auto
  qed
qed

lemma strict_prefix_butlast: "prefix c p \<Longrightarrow> c \<noteq> p \<Longrightarrow> prefix c (butlast p)"
  by (auto simp: prefix_def butlast_append)

lemma no_prefix_in_incomparable:
  assumes "no_prefix_in cs qs"
    and "p \<noteq> []" and "butlast p = [] \<or> butlast p \<in> set qs"
    and "c \<in> set cs" and "c \<noteq> []" and "prefix c p"
  shows "c = p"
proof (rule ccontr)
  assume "c \<noteq> p"
  with \<open>prefix c p\<close> have pb: "prefix c (butlast p)" by (rule strict_prefix_butlast)
  with \<open>c \<noteq> []\<close> have "butlast p \<noteq> []" by auto
  with assms(3) have "butlast p \<in> set qs" by simp
  with assms(1) \<open>c \<in> set cs\<close> pb show False by (auto simp: no_prefix_in_def)
qed

lemma leaf_at_empty_Node [simp]: "leaf_at (Node []) p m = False"
  by (cases p) (simp_all add: leaf_at_Node_Cons)

lemma leaves_avoid_after:
  "leaves_after t' t cs m \<Longrightarrow> leaves_avoid t qs \<Longrightarrow> no_prefix_in cs qs \<Longrightarrow> leaves_avoid t' qs"
  unfolding leaves_after_def leaves_avoid_def no_prefix_in_def by blast

lemma no_prefix_in_mono:
  "no_prefix_in cs qs \<Longrightarrow> set cs' \<subseteq> set cs \<Longrightarrow> set qs' \<subseteq> set qs \<Longrightarrow> no_prefix_in cs' qs'"
  unfolding no_prefix_in_def by blast

lemma leaves_avoid_mono:
  "leaves_avoid t qs \<Longrightarrow> set qs' \<subseteq> set qs \<Longrightarrow> leaves_avoid t qs'"
  unfolding leaves_avoid_def by blast

lemma no_prefix_in_Cons:
  "no_prefix_in (map ((#) k) cs) (map ((#) k) qs) \<Longrightarrow> no_prefix_in cs qs"
  unfolding no_prefix_in_def by auto

lemma attach_leaves:
  "keys_ok g \<Longrightarrow> no_prefix_in (cmd_paths g) (grp_paths g) \<Longrightarrow>
     leaves_avoid (Node ch) (grp_paths g) \<Longrightarrow>
     \<exists>ch'. attach_sub_group_to_node g (Node ch) m = Inr (Node ch')
        \<and> leaves_after (Node ch') (Node ch) (cmd_paths g) m"
  "sub_keys_ok subs \<Longrightarrow> no_prefix_in (sub_cmd_paths subs) (sub_grp_paths subs) \<Longrightarrow>
     leaves_avoid (Node ch) (sub_grp_paths subs) \<Longrightarrow>
     \<exists>ch'. attach_sub_groups subs (Node ch) m = Inr (Node ch')
        \<and> leaves_after (Node ch') (Node ch) (sub_cmd_paths subs) m"
proof (induction g and subs arbitrary: ch and ch rule: cmd_paths_sub_cmd_paths.induct)
  case (1 cmds subs)
  let ?cs1 = "map (\<lambda>e. [tok (fst e)]) cmds"
  from "1.prems"(1) have okc: "list_all (\<lambda>e. py_split (fst e) \<noteq> []) cmds" and oks: "sub_keys_ok subs"
    by simp_all
  from attach_commands_leaves [OF okc, of ch m] obtain ch1 where
    run1: "attach_commands cmds (Node ch) m = Inr (Node ch1)"
    and la1: "leaves_after (Node ch1) (Node ch) ?cs1 m" by blast
  from "1.prems"(2) have np: "no_prefix_in (?cs1 @ sub_cmd_paths subs) (sub_grp_paths subs)"
    by simp
  have np1: "no_prefix_in ?cs1 (sub_grp_paths subs)"
    and np2: "no_prefix_in (sub_cmd_paths subs) (sub_grp_paths subs)"
    using np by (auto elim: no_prefix_in_mono)
  from "1.prems"(3) have av: "leaves_avoid (Node ch) (sub_grp_paths subs)" by simp
  have av1: "leaves_avoid (Node ch1) (sub_grp_paths subs)"
    by (rule leaves_avoid_after [OF la1 av np1])
  from "1.IH" [OF oks np2 av1, of ] obtain ch' where
    run2: "attach_sub_groups subs (Node ch1) m = Inr (Node ch')"
    and la2: "leaves_after (Node ch') (Node ch1) (sub_cmd_paths subs) m" by blast
  have inc: "\<forall>p \<in> set ?cs1. \<forall>c \<in> set (sub_cmd_paths subs). prefix c p \<longrightarrow> c = p"
  proof (intro ballI impI)
    fix p c assume "p \<in> set ?cs1" "c \<in> set (sub_cmd_paths subs)" "prefix c p"
    from cmd_paths_shape(2) [OF this(2)] have "c \<noteq> []" "butlast c \<noteq> []" by simp_all
    moreover from \<open>p \<in> set ?cs1\<close> obtain k where "p = [k]" by auto
    ultimately show "c = p" using \<open>prefix c p\<close> by (cases c) auto
  qed
  from leaves_after_trans [OF la1 la2 inc] run1 run2 show ?case by simp
next
  case 2
  then show ?case by (simp add: leaves_after_Nil)
next
  case (3 name g rest)
  let ?k = "tok name"
  let ?cs = "sub_cmd_paths ((name, g) # rest)"
  let ?qs = "sub_grp_paths ((name, g) # rest)"
  let ?cs1 = "map ((#) ?k) (cmd_paths g)"
  define child where "child = (case map_of ch ?k of None \<Rightarrow> Node [] | Some c \<Rightarrow> c)"
  define ch1 where "ch1 = (if \<not> has_key ?k ch then AList.update ?k (Node []) ch else ch)"
  from "3.prems"(1) have ok: "py_split name \<noteq> []" and okg: "keys_ok g" and okr: "sub_keys_ok rest"
    by simp_all
  have m1: "map_of ch1 ?k = Some child"
    by (cases "map_of ch ?k") (simp_all add: ch1_def child_def has_key_def update_conv')
  have same: "leaf_at (Node ch1) p m' = leaf_at (Node ch) p m'" for p m'
    by (cases p) (auto simp: ch1_def has_key_def leaf_at_Node_Cons update_conv')
  have child_leaf: "leaf_at child xs m' = leaf_at (Node ch) (?k # xs) m'" for xs m'
    by (cases "map_of ch ?k") (simp_all add: child_def leaf_at_Node_Cons)
  have "\<exists>chd. child = Node chd"
  proof (cases child)
    case (Leaf x)
    then have "leaf_at (Node ch) [?k] x" using child_leaf [of "[]" x] by simp
    with "3.prems"(3) have "\<not> prefix [?k] [?k]"
      unfolding leaves_avoid_def by (metis list.set_intros(1) sub_grp_paths.simps(2))
    then show ?thesis by simp
  next
    case (Node chd)
    then show ?thesis by blast
  qed
  then obtain chd where chd: "child = Node chd" by blast
  have npg: "no_prefix_in (cmd_paths g) (grp_paths g)"
    by (rule no_prefix_in_Cons [of ?k]) (rule no_prefix_in_mono [OF "3.prems"(2)], auto)
  have avg: "leaves_avoid (Node chd) (grp_paths g)"
    unfolding leaves_avoid_def
  proof (intro allI impI ballI)
    fix p m' q assume "leaf_at (Node chd) p m'" "q \<in> set (grp_paths g)"
    then have "leaf_at (Node ch) (?k # p) m'" "?k # q \<in> set ?qs"
      using child_leaf chd by auto
    with "3.prems"(3) have "\<not> prefix (?k # p) (?k # q)"
      unfolding leaves_avoid_def by blast
    then show "\<not> prefix p q" by simp
  qed
  from "3.IH"(1) [OF okg npg avg] obtain chd' where
    run1: "attach_sub_group_to_node g (Node chd) m = Inr (Node chd')"
    and lag: "leaves_after (Node chd') (Node chd) (cmd_paths g) m" by blast
  let ?ch2 = "AList.update ?k (Node chd') ch1"
  have step: "leaves_after (Node ?ch2) (Node ch) ?cs1 m"
    unfolding leaves_after_def
  proof (intro allI)
    fix p m'
    show "leaf_at (Node ?ch2) p m' \<longleftrightarrow>
        (p \<in> set ?cs1 \<and> m' = m) \<or> (leaf_at (Node ch) p m' \<and> (\<forall>c \<in> set ?cs1. \<not> prefix c p))"
    proof (cases p)
      case Nil
      then show ?thesis by auto
    next
      case (Cons x xs)
      show ?thesis
      proof (cases "x = ?k")
        case True
        have "leaf_at (Node ?ch2) p m' = leaf_at (Node chd') xs m'"
          using Cons True by (simp add: leaf_at_update)
        also have "\<dots> \<longleftrightarrow> (xs \<in> set (cmd_paths g) \<and> m' = m) \<or>
            (leaf_at (Node chd) xs m' \<and> (\<forall>c \<in> set (cmd_paths g). \<not> prefix c xs))"
          using lag unfolding leaves_after_def by blast
        finally show ?thesis
          using Cons True child_leaf [of xs m'] chd by auto
      next
        case False
        then have "leaf_at (Node ?ch2) p m' = leaf_at (Node ch) p m'"
          using Cons same [of p m'] by (simp add: leaf_at_update)
        with False Cons show ?thesis by auto
      qed
    qed
  qed
  have npr: "no_prefix_in (sub_cmd_paths rest) (sub_grp_paths rest)"
    by (rule no_prefix_in_mono [OF "3.prems"(2)]) auto
  have np1r: "no_prefix_in ?cs1 (sub_grp_paths rest)"
    by (rule no_prefix_in_mono [OF "3.prems"(2)]) auto
  have avr: "leaves_avoid (Node ch) (sub_grp_paths rest)"
    by (rule leaves_avoid_mono [OF "3.prems"(3)]) auto
  have av2: "leaves_avoid (Node ?ch2) (sub_grp_paths rest)"
    by (rule leaves_avoid_after [OF step avr np1r])
  from "3.IH"(2) [OF okr npr av2] obtain ch' where
    run2: "attach_sub_groups rest (Node ?ch2) m = Inr (Node ch')"
    and lar: "leaves_after (Node ch') (Node ?ch2) (sub_cmd_paths rest) m" by blast
  have inc: "\<forall>p \<in> set ?cs1. \<forall>c \<in> set (sub_cmd_paths rest). prefix c p \<longrightarrow> c = p"
  proof (intro ballI impI)
    fix p c assume p: "p \<in> set ?cs1" and c: "c \<in> set (sub_cmd_paths rest)" and pre: "prefix c p"
    from p have pin: "p \<in> set ?cs" by simp
    from c have cin: "c \<in> set ?cs" by simp
    from cmd_paths_shape(2) [OF pin] have "p \<noteq> []" "butlast p = [] \<or> butlast p \<in> set ?qs"
      by blast+
    moreover from cmd_paths_shape(2) [OF cin] have "c \<noteq> []" by blast
    ultimately show "c = p"
      using no_prefix_in_incomparable [OF "3.prems"(2) _ _ cin _ pre] by blast
  qed
  have la: "leaves_after (Node ch') (Node ch) ?cs m"
    using leaves_after_trans [OF step lar inc] by simp
  have "attach_sub_groups ((name, g) # rest) (Node ch) m = Inr (Node ch')"
    using ok m1 chd run1 run2 by (simp add: last_token_tok ch1_def [symmetric])
  with la show ?case by blast
qed

lemma last_owner_append:
  "last_owner (xs @ ys) p =
     (case last_owner ys p of Some m \<Rightarrow> Some m | None \<Rightarrow> last_owner xs p)"
  by (induction xs) (auto split: option.splits)

lemma last_owner_in: "last_owner mms p = Some m \<Longrightarrow> p \<in> set (all_cmd_paths mms)"
  by (induction mms) (auto simp: all_cmd_paths_def split: option.splits if_splits)

lemma last_owner_None: "p \<notin> set (all_cmd_paths mms) \<Longrightarrow> last_owner mms p = None"
  using last_owner_in by (cases "last_owner mms p") auto

lemma all_cmd_paths_shape:
  assumes "p \<in> set (all_cmd_paths mms)"
  shows "p \<noteq> [] \<and> (butlast p = [] \<or> butlast p \<in> set (all_grp_paths mms))"
proof -
  from assms obtain mm where "mm \<in> set mms" "p \<in> set (cmd_paths (as_group mm))"
    by (auto simp: all_cmd_paths_def)
  with cmd_paths_shape(1) [of p "as_group mm"] show ?thesis
    by (auto simp: all_grp_paths_def)
qed

lemma conflict_free_no_prefix_in:
  "conflict_free mms = no_prefix_in (all_cmd_paths mms) (all_grp_paths mms)"
  by (simp add: conflict_free_def no_prefix_in_def list_all_iff)

lemma build_loop_leaves:
  assumes "list_all (\<lambda>mm. keys_ok (as_group mm)) rest"
    and "conflict_free (done @ rest)"
    and "\<forall>p m. leaf_at (Node ch) p m \<longleftrightarrow> last_owner done p = Some m"
  shows "\<exists>ch'. build_loop rest (Node ch) = Inr (Node ch')
           \<and> (\<forall>p m. leaf_at (Node ch') p m \<longleftrightarrow> last_owner (done @ rest) p = Some m)"
  using assms
proof (induction rest arbitrary: "done" ch)
  case Nil
  then show ?case by simp
next
  case (Cons mm rest)
  let ?g = "as_group mm"
  let ?m = "module_name_of mm"
  let ?all = "done @ mm # rest"
  from Cons.prems(2) have np: "no_prefix_in (all_cmd_paths ?all) (all_grp_paths ?all)"
    by (simp add: conflict_free_no_prefix_in)
  have sub_c: "set (cmd_paths ?g) \<subseteq> set (all_cmd_paths ?all)"
    and sub_q: "set (grp_paths ?g) \<subseteq> set (all_grp_paths ?all)"
    and sub_d: "set (all_cmd_paths done) \<subseteq> set (all_cmd_paths ?all)"
    by (auto simp: all_cmd_paths_def all_grp_paths_def)
  from Cons.prems(1) have okg: "keys_ok ?g" and okr: "list_all (\<lambda>mm. keys_ok (as_group mm)) rest"
    by simp_all
  have npg: "no_prefix_in (cmd_paths ?g) (grp_paths ?g)"
    by (rule no_prefix_in_mono [OF np sub_c sub_q])
  have old: "p \<in> set (all_cmd_paths done)" if "leaf_at (Node ch) p m'" for p m'
    using that Cons.prems(3) last_owner_in by blast
  have avg: "leaves_avoid (Node ch) (grp_paths ?g)"
    unfolding leaves_avoid_def using old np sub_d sub_q
    unfolding no_prefix_in_def by blast
  from attach_leaves(1) [OF okg npg avg, of ?m] obtain ch1 where
    run1: "attach_sub_group_to_node ?g (Node ch) ?m = Inr (Node ch1)"
    and la: "leaves_after (Node ch1) (Node ch) (cmd_paths ?g) ?m" by blast
  have inv1: "\<forall>p m'. leaf_at (Node ch1) p m' \<longleftrightarrow> last_owner (done @ [mm]) p = Some m'"
  proof (intro allI)
    fix p m'
    show "leaf_at (Node ch1) p m' \<longleftrightarrow> last_owner (done @ [mm]) p = Some m'"
    proof (cases "p \<in> set (cmd_paths ?g)")
      case True
      then have "leaf_at (Node ch1) p m' \<longleftrightarrow> m' = ?m"
        using la unfolding leaves_after_def by auto
      with True show ?thesis by (auto simp: last_owner_append)
    next
      case False
      have keep: "\<forall>c \<in> set (cmd_paths ?g). \<not> prefix c p" if lf: "leaf_at (Node ch) p m'"
      proof
        fix c assume c: "c \<in> set (cmd_paths ?g)"
        from old [OF lf] sub_d have pin: "p \<in> set (all_cmd_paths ?all)" by blast
        from c sub_c have cin: "c \<in> set (all_cmd_paths ?all)" by blast
        from all_cmd_paths_shape [OF pin] all_cmd_paths_shape [OF cin]
          no_prefix_in_incomparable [OF np _ _ cin, of p]
        have "prefix c p \<Longrightarrow> c = p" by blast
        with c False show "\<not> prefix c p" by blast
      qed
      from False have "leaf_at (Node ch1) p m' \<longleftrightarrow>
          leaf_at (Node ch) p m' \<and> (\<forall>c \<in> set (cmd_paths ?g). \<not> prefix c p)"
        using la unfolding leaves_after_def by auto
      with keep have "leaf_at (Node ch1) p m' \<longleftrightarrow> leaf_at (Node ch) p m'" by blast
      with False Cons.prems(3) show ?thesis by (simp add: last_owner_append)
    qed
  qed
  from Cons.prems(2) have cf1: "conflict_free ((done @ [mm]) @ rest)" by simp
  from Cons.IH [OF okr cf1 inv1] run1 show ?case by simp
qed

lemma build_command_tree_leaves:
  assumes "list_all (\<lambda>mm. keys_ok (as_group mm)) (map snd ms)"
    and "conflict_free (map snd ms)"
  shows "\<exists>t. build_command_tree ms = Inr t
           \<and> (\<forall>p m. walk t p = Some (Leaf m) \<longleftrightarrow> last_owner (map snd ms) p = Some m)"
proof -
  have "\<forall>p m. leaf_at (Node []) p m \<longleftrightarrow> last_owner [] p = Some m" by simp
  from build_loop_leaves [OF assms(1) _ this] assms(2) show ?thesis
    by (auto simp: build_command_tree_def leaf_at_def)
qed

lemma last_owner_index:
  assumes "j < length mms" and "p \<in> set (cmd_paths (as_group (mms ! j)))"
    and "\<forall>k. j < k \<and> k < length mms \<longrightarrow> p \<notin> set (cmd_paths (as_group (mms ! k)))"
  shows "last_owner mms p = Some (module_name_of (mms ! j))"
proof -
  have split: "mms = take j mms @ [mms ! j] @ drop (Suc j) mms"
    using assms(1) by (simp add: id_take_nth_drop)
  have "p \<notin> set (all_cmd_paths (drop (Suc j) mms))"
  proof
    assume "p \<in> set (all_cmd_paths (drop (Suc j) mms))"
    then obtain mm where "mm \<in> set (drop (Suc j) mms)" "p \<in> set (cmd_paths (as_group mm))"
      by (auto simp: all_cmd_paths_def)
    then obtain n where "n < length (drop (Suc j) mms)" "drop (Suc j) mms ! n = mm"
      by (auto simp: in_set_conv_nth)
    then have "Suc j + n < length mms" "mms ! (Suc j + n) = mm" by auto
    with assms(3) \<open>p \<in> set (cmd_paths (as_group mm))\<close> show False
      by (metis add_Suc less_add_Suc1)
  qed
  then have none: "last_owner (drop (Suc j) mms) p = None" by (rule last_owner_None)
  have "last_owner mms p = last_owner (take j mms @ [mms ! j] @ drop (Suc j) mms) p"
    using split by simp
  also have "\<dots> = Some (module_name_of (mms ! j))"
    using none assms(2) by (simp add: last_owner_append)
  finally show ?thesis .
qed

lemma last_owner_declared_once:
  assumes "declared_once mms" and "mm \<in> set mms" and "p \<in> set (cmd_paths (as_group mm))"
  shows "last_owner mms p = Some (module_name_of mm)"
  using assms
proof (induction mms)
  case Nil
  then show ?case by simp
next
  case (Cons a mms)
  from Cons.prems(1) have d: "declared_once mms"
    and dis: "set (cmd_paths (as_group a)) \<inter> set (all_cmd_paths mms) = {}"
    by (auto simp: list_all_iff)
  show ?case
  proof (cases "mm \<in> set mms")
    case True
    with Cons.IH [OF d] Cons.prems(3) show ?thesis by simp
  next
    case False
    with Cons.prems(2) have "mm = a" by simp
    with Cons.prems(3) dis have "p \<notin> set (all_cmd_paths mms)" by blast
    then have "last_owner mms p = None" by (rule last_owner_None)
    with \<open>mm = a\<close> Cons.prems(3) show ?thesis by simp
  qed
qed

lemma path_keyed_keys_ok:
  "path_keyed pre g \<Longrightarrow> keys_ok g"
  "sub_path_keyed pre subs \<Longrightarrow> sub_keys_ok subs"
  by (induction g and subs arbitrary: pre and pre rule: cmd_paths_sub_cmd_paths.induct)
    (auto simp: list_all_iff)

lemma path_keyed_split:
  "path_keyed pre g \<Longrightarrow> key \<in> set (command_keys g) \<Longrightarrow>
     \<exists>c \<in> set (cmd_paths g). py_split key = pre @ c"
  "sub_path_keyed pre subs \<Longrightarrow> key \<in> set (sub_command_keys subs) \<Longrightarrow>
     \<exists>c \<in> set (sub_cmd_paths subs). py_split key = pre @ c"
proof (induction g and subs arbitrary: pre and pre rule: cmd_paths_sub_cmd_paths.induct)
  case (1 cmds subs)
  from "1.prems"(2) consider (cmd) "key \<in> fst ` set cmds" | (sub) "key \<in> set (sub_command_keys subs)"
    by auto
  then show ?case
  proof cases
    case cmd
    with "1.prems"(1) have "py_split key \<noteq> []" "butlast (py_split key) = pre"
      by (auto simp: list_all_iff)
    then have "py_split key = pre @ [tok key]"
      unfolding tok_def by (metis append_butlast_last_id)
    with cmd show ?thesis by force
  next
    case sub
    with "1.IH" [of pre] "1.prems"(1) show ?thesis by auto
  qed
next
  case 2
  then show ?case by simp
next
  case (3 name g rest)
  from "3.prems"(1) have nm: "py_split name \<noteq> []" "butlast (py_split name) = pre"
    and pg: "path_keyed (py_split name) g" and pr: "sub_path_keyed pre rest"
    by simp_all
  from nm have sp: "py_split name = pre @ [tok name]"
    unfolding tok_def by (metis append_butlast_last_id)
  from "3.prems"(2) consider (here) "key \<in> set (command_keys g)"
    | (later) "key \<in> set (sub_command_keys rest)" by auto
  then show ?case
  proof cases
    case here
    from "3.IH"(1) [OF pg here] obtain c where "c \<in> set (cmd_paths g)"
      "py_split key = py_split name @ c" by blast
    with sp show ?thesis by auto
  next
    case later
    from "3.IH"(2) [OF pr later] show ?thesis by auto
  qed
qed

text \<open>
  C7, as the code has it. When every key has a token and no command path is the path
  of a sub-group or a prefix of one, and two modules declare a command at the same
  path, building succeeds and the leaf at that path belongs to the module processed
  last among those that declare it.
\<close>

theorem build_command_tree_last_writer_wins:
  assumes "list_all (\<lambda>mm. keys_ok (as_group mm)) (map snd ms)"
    and "conflict_free (map snd ms)"
    and "i < j" and "j < length ms"
    and "p \<in> set (cmd_paths (as_group (snd (ms ! i))))"
    and "p \<in> set (cmd_paths (as_group (snd (ms ! j))))"
    and "list_all (\<lambda>mm. p \<notin> set (cmd_paths (as_group mm))) (drop (Suc j) (map snd ms))"
  shows "\<exists>t. build_command_tree ms = Inr t
           \<and> walk t p = Some (Leaf (module_name_of (snd (ms ! j))))"
proof -
  have later: "\<forall>k. j < k \<and> k < length (map snd ms) \<longrightarrow>
      p \<notin> set (cmd_paths (as_group (map snd ms ! k)))"
  proof (intro allI impI)
    fix k assume k: "j < k \<and> k < length (map snd ms)"
    then obtain n where n: "k = Suc j + n" by (metis Suc_leI le_iff_add)
    with k have "n < length (drop (Suc j) (map snd ms))" by simp
    then have "drop (Suc j) (map snd ms) ! n \<in> set (drop (Suc j) (map snd ms))"
      by (rule nth_mem)
    with assms(7) have "p \<notin> set (cmd_paths (as_group (drop (Suc j) (map snd ms) ! n)))"
      by (simp add: list_all_iff)
    with k n show "p \<notin> set (cmd_paths (as_group (map snd ms ! k)))" by simp
  qed
  from assms(4,6) have "last_owner (map snd ms) p = Some (module_name_of (map snd ms ! j))"
    using last_owner_index [of j "map snd ms" p, OF _ _ later] by simp
  with build_command_tree_leaves [OF assms(1,2)] assms(4) show ?thesis by auto
qed

theorem build_command_tree_last_writer_wins_witness:
  "list_all (\<lambda>mm. keys_ok (as_group mm)) (map snd sample_metas)
   \<and> conflict_free (map snd sample_metas)
   \<and> [''storage'', ''list''] \<in> set (cmd_paths (as_group (snd (sample_metas ! 0))))
   \<and> [''storage'', ''list''] \<in> set (cmd_paths (as_group (snd (sample_metas ! 1))))
   \<and> (\<exists>t. build_command_tree sample_metas = Inr t
          \<and> walk t [''storage'', ''list''] = Some (Leaf ''storage-preview''))"
proof -
  have s: "py_split ''storage'' = [''storage'']" "py_split ''storage list'' = [''storage'', ''list'']"
    by (simp_all add: py_split_def py_isspace_def)
  have k: "list_all (\<lambda>mm. keys_ok (as_group mm)) (map snd sample_metas)"
    by (simp add: sample_metas_def storage_a_def storage_b_def s)
  have c: "conflict_free (map snd sample_metas)"
    by (simp add: sample_metas_def storage_a_def storage_b_def conflict_free_def
        all_cmd_paths_def all_grp_paths_def tok_def s)
  have a: "[''storage'', ''list''] \<in> set (cmd_paths (as_group (snd (sample_metas ! 0))))"
    by (simp add: sample_metas_def storage_a_def tok_def s)
  have b: "[''storage'', ''list''] \<in> set (cmd_paths (as_group (snd (sample_metas ! 1))))"
    by (simp add: sample_metas_def storage_b_def tok_def s)
  have l: "list_all (\<lambda>mm. [''storage'', ''list''] \<notin> set (cmd_paths (as_group mm)))
      (drop (Suc 1) (map snd sample_metas))"
    by (simp add: sample_metas_def)
  have n: "module_name_of (snd (sample_metas ! 1)) = ''storage-preview''"
    by (simp add: sample_metas_def storage_b_def)
  from build_command_tree_last_writer_wins [OF k c _ _ a b l] n k c a b show ?thesis
    by (simp add: sample_metas_def)
qed

text \<open>
  C7, as the specification states it, fails. Two modules declare \<open>storage list\<close>; when
  a third has a sub-group at that path, building raises \<open>TypeError\<close>, and when a third
  has a command at the path \<open>storage\<close>, building succeeds and the tree has no leaf at
  \<open>storage list\<close>.
\<close>

theorem build_command_tree_fails_on_clash:
  "[''storage'', ''list''] \<in> set (cmd_paths (as_group (snd (clash_metas ! 0))))
   \<and> [''storage'', ''list''] \<in> set (cmd_paths (as_group (snd (clash_metas ! 1))))
   \<and> build_command_tree clash_metas = Inl (Raise TypeError [])
   \<and> [''storage'', ''list''] \<in> set (cmd_paths (as_group (snd (shadow_metas ! 0))))
   \<and> [''storage'', ''list''] \<in> set (cmd_paths (as_group (snd (shadow_metas ! 1))))
   \<and> build_command_tree shadow_metas = Inr (Node [(''storage'', Leaf ''storage-cli'')])
   \<and> walk (Node [(''storage'', Leaf ''storage-cli'')]) [''storage'', ''list''] = None"
proof -
  have s: "py_split ''storage'' = [''storage'']" "py_split ''storage list'' = [''storage'', ''list'']"
    "py_split ''storage list blobs'' = [''storage'', ''list'', ''blobs'']"
    by (simp_all add: py_split_def py_isspace_def)
  have c: "build_command_tree clash_metas = Inl (Raise TypeError [])"
    by (simp add: clash_metas_def sample_metas_def storage_a_def storage_b_def storage_sub_def
        build_command_tree_def last_token_def has_key_def s)
  have h: "build_command_tree shadow_metas = Inr (Node [(''storage'', Leaf ''storage-cli'')])"
    by (simp add: shadow_metas_def sample_metas_def storage_a_def storage_b_def storage_top_def
        build_command_tree_def last_token_def has_key_def s)
  have m: "[''storage'', ''list''] \<in> set (cmd_paths (as_group storage_a))"
    "[''storage'', ''list''] \<in> set (cmd_paths (as_group storage_b))"
    by (simp_all add: storage_a_def storage_b_def tok_def s)
  from c h m show ?thesis
    by (simp add: clash_metas_def shadow_metas_def sample_metas_def)
qed

text \<open>
  C6, as the code has it. When the tokens of every key are the path to its entry, no
  command path is the path of a sub-group or a prefix of one, and no command path is
  declared by two modules, then building succeeds and the tokens of every command key
  lead to a leaf that holds the name of the module declaring the command.
\<close>

theorem declared_command_resolves_to_its_module:
  assumes "list_all (\<lambda>mm. path_keyed [] (as_group mm)) (map snd ms)"
    and "conflict_free (map snd ms)" and "declared_once (map snd ms)"
    and "(file, mm) \<in> set ms" and "key \<in> set (command_keys (as_group mm))"
  shows "\<exists>t. build_command_tree ms = Inr t
           \<and> walk t (py_split key) = Some (Leaf (module_name_of mm))"
proof -
  from assms(1) have ok: "list_all (\<lambda>mm. keys_ok (as_group mm)) (map snd ms)"
    by (auto simp: list_all_iff intro: path_keyed_keys_ok(1))
  from assms(4) have mm: "mm \<in> set (map snd ms)" by force
  with assms(1) have "path_keyed [] (as_group mm)" by (auto simp: list_all_iff)
  from path_keyed_split(1) [OF this assms(5)]
  have "py_split key \<in> set (cmd_paths (as_group mm))" by auto
  from last_owner_declared_once [OF assms(3) mm this] build_command_tree_leaves [OF ok assms(2)]
  show ?thesis by auto
qed

theorem declared_command_resolves_to_its_module_witness:
  "list_all (\<lambda>mm. path_keyed [] (as_group mm)) (map snd two_module_metas)
   \<and> conflict_free (map snd two_module_metas) \<and> declared_once (map snd two_module_metas)
   \<and> (''az_vm_meta.json'', vm_meta) \<in> set two_module_metas
   \<and> ''vm disk attach'' \<in> set (command_keys (as_group vm_meta))
   \<and> (\<exists>t. build_command_tree two_module_metas = Inr t
          \<and> walk t [''vm'', ''disk'', ''attach''] = Some (Leaf ''vm''))
   \<and> (''az_storage_meta.json'', storage_a) \<in> set two_module_metas
   \<and> ''storage list'' \<in> set (command_keys (as_group storage_a))
   \<and> (\<exists>t. build_command_tree two_module_metas = Inr t
          \<and> walk t [''storage'', ''list''] = Some (Leaf ''storage''))"
proof -
  have s: "py_split ''vm'' = [''vm'']" "py_split ''vm list'' = [''vm'', ''list'']"
    "py_split ''vm disk'' = [''vm'', ''disk'']"
    "py_split ''vm disk attach'' = [''vm'', ''disk'', ''attach'']"
    "py_split ''storage'' = [''storage'']" "py_split ''storage list'' = [''storage'', ''list'']"
    by (simp_all add: py_split_def py_isspace_def)
  have v: "list_all (\<lambda>mm. path_keyed [] (as_group mm)) (map snd two_module_metas)"
    by (simp add: two_module_metas_def vm_metas_def vm_meta_def storage_a_def s)
  have c: "conflict_free (map snd two_module_metas)"
    by (simp add: two_module_metas_def vm_metas_def vm_meta_def storage_a_def conflict_free_def
        all_cmd_paths_def all_grp_paths_def tok_def s)
  have d: "declared_once (map snd two_module_metas)"
    by (simp add: two_module_metas_def vm_metas_def vm_meta_def storage_a_def all_cmd_paths_def
        tok_def s)
  have i1: "(''az_vm_meta.json'', vm_meta) \<in> set two_module_metas"
    and i2: "(''az_storage_meta.json'', storage_a) \<in> set two_module_metas"
    by (simp_all add: two_module_metas_def vm_metas_def)
  have k1: "''vm disk attach'' \<in> set (command_keys (as_group vm_meta))"
    and k2: "''storage list'' \<in> set (command_keys (as_group storage_a))"
    by (simp_all add: vm_meta_def storage_a_def)
  have n: "module_name_of vm_meta = ''vm''" "module_name_of storage_a = ''storage''"
    by (simp_all add: vm_meta_def storage_a_def)
  from declared_command_resolves_to_its_module [OF v c d i1 k1]
    declared_command_resolves_to_its_module [OF v c d i2 k2] v c d i1 i2 k1 k2 n s
  show ?thesis by simp
qed

text \<open>
  C6, as the specification states it, fails: two modules declare \<open>storage list\<close>, and
  the path of the command of the first leads to a leaf that holds the name of the
  second.
\<close>

theorem declared_command_resolves_to_other_module:
  "list_all (\<lambda>mm. path_keyed [] (as_group mm)) (map snd sample_metas)
   \<and> ''storage list'' \<in> set (command_keys (as_group storage_a))
   \<and> (''az_storage_meta.json'', storage_a) \<in> set sample_metas
   \<and> build_command_tree sample_metas
       = Inr (Node [(''storage'', Node [(''list'', Leaf ''storage-preview'')])])
   \<and> walk (Node [(''storage'', Node [(''list'', Leaf ''storage-preview'')])])
        (py_split ''storage list'') \<noteq> Some (Leaf (module_name_of storage_a))"
proof -
  have s: "py_split ''storage'' = [''storage'']" "py_split ''storage list'' = [''storage'', ''list'']"
    by (simp_all add: py_split_def py_isspace_def)
  show ?thesis
    by (simp add: sample_metas_def storage_a_def storage_b_def build_command_tree_def
        last_token_def has_key_def s)
qed

section \<open>The required-argument policy\<close>

text \<open>
  On parameters that follow the schema, the two loops of \<^verbatim>\<open>validate_command\<close> never
  raise, and they append the option spellings of the parameters they find missing in
  the order of the parameter list.
\<close>

lemma check_param_wf:
  assumes "well_formed_param ns p"
  shows "check_param ns p acc =
     Inr (if has_key ''required'' p \<and> value_absent ns p then acc @ [option_spellings p] else acc)"
proof -
  from assms obtain name xs where n: "map_of p ''name'' = Some (JStr name)"
    and a: "has_key name ns"
    and o: "map_of p ''options'' = Some (JArr xs)"
    and s: "list_all (\<lambda>x. case x of JStr s \<Rightarrow> True | _ \<Rightarrow> False) xs"
    unfolding well_formed_param_def by (auto split: option.splits json.splits)
  from a obtain v where v: "map_of ns name = Some v" by (auto simp: has_key_def)
  have ra: "required_and_absent ns p = Inr (has_key ''required'' p \<and> value_absent ns p)"
    by (simp add: required_and_absent_def value_absent_def n v)
  have jo: "joined_options p = Inr (option_spellings p)"
    by (simp add: joined_options_def option_spellings_def o s)
  show ?thesis by (simp add: check_param_def ra jo)
qed

lemma missing_with_ids_wf:
  "list_all (well_formed_param ns) ps \<Longrightarrow>
   missing_with_ids ns ps acc =
     Inr (acc @ map option_spellings
        (filter (\<lambda>p. has_key ''required'' p \<and> \<not> has_key ''id_part'' p \<and> value_absent ns p) ps))"
  by (induction ps arbitrary: acc) (simp_all add: check_param_wf)

lemma missing_without_ids_wf:
  "list_all (well_formed_param ns) ps \<Longrightarrow>
   missing_without_ids ns ps acc =
     Inr (acc @ map option_spellings
        (filter (\<lambda>p. has_key ''required'' p \<and> value_absent ns p) ps))"
  by (induction ps arbitrary: acc) (simp_all add: check_param_wf)

lemma required_missing_wf:
  assumes "has_key ''ids'' ns" and "list_all (well_formed_param ns) params"
  shows "required_missing params ns = Inr (map option_spellings (missing_params ns params))"
proof -
  from assms(1) obtain v where v: "map_of ns ''ids'' = Some v" by (auto simp: has_key_def)
  show ?thesis
    by (simp add: required_missing_def missing_params_def ids_present_def v
        missing_with_ids_wf [OF assms(2)] missing_without_ids_wf [OF assms(2)])
qed

text \<open>
  C2. When the \<open>ids\<close> slot of the namespace is present, the policy records, in the order
  of the parameters, the option spellings of exactly the parameters that have the key
  \<open>required\<close>, do not have the key \<open>id_part\<close>, and whose value is absent; a parameter
  with the key \<open>id_part\<close> is never recorded. The parameters follow the schema of the
  metadata (\<open>well_formed_param\<close>).
\<close>

theorem policy_with_ids:
  assumes "ids_present ns" and "list_all (well_formed_param ns) params"
  shows "required_missing params ns =
     Inr (map option_spellings
        (filter (\<lambda>p. has_key ''required'' p \<and> \<not> has_key ''id_part'' p \<and> value_absent ns p)
           params))"
proof -
  from assms(1) obtain v where "map_of ns ''ids'' = Some v" "v \<noteq> JNull"
    by (auto simp: ids_present_def split: option.splits)
  then show ?thesis
    by (simp add: required_missing_def missing_with_ids_wf [OF assms(2)])
qed

theorem policy_with_ids_witness:
  "ids_present ids_ns \<and> list_all (well_formed_param ids_ns) [a_param, b_param]
   \<and> has_key ''required'' a_param \<and> has_key ''id_part'' a_param \<and> value_absent ids_ns a_param
   \<and> required_missing [a_param, b_param] ids_ns = Inr [''--b/-b'']"
proof -
  have i: "ids_present ids_ns" by (simp add: ids_present_def ids_ns_def)
  have w: "list_all (well_formed_param ids_ns) [a_param, b_param]"
    by (simp add: well_formed_param_def ids_ns_def a_param_def b_param_def has_key_def)
  have a: "has_key ''required'' a_param \<and> has_key ''id_part'' a_param \<and> value_absent ids_ns a_param"
    by (simp add: has_key_def a_param_def value_absent_def ids_ns_def)
  have b: "has_key ''required'' b_param \<and> \<not> has_key ''id_part'' b_param \<and> value_absent ids_ns b_param"
    by (simp add: has_key_def b_param_def value_absent_def ids_ns_def)
  have o: "option_spellings b_param = ''--b/-b''"
    by (simp add: option_spellings_def b_param_def)
  from policy_with_ids [OF i w] a b o i w show ?thesis by simp
qed

text \<open>
  C3. When the \<open>ids\<close> slot is absent, the policy records the option spellings of
  exactly the parameters that have the key \<open>required\<close> and whose value is absent,
  whether or not they have the key \<open>id_part\<close>.
\<close>

theorem policy_without_ids:
  assumes "ids_absent ns" and "list_all (well_formed_param ns) params"
  shows "required_missing params ns =
     Inr (map option_spellings
        (filter (\<lambda>p. has_key ''required'' p \<and> value_absent ns p) params))"
  using assms(1)
  by (simp add: ids_absent_def required_missing_def missing_without_ids_wf [OF assms(2)])

theorem policy_without_ids_witness:
  "ids_absent no_ids_ns \<and> list_all (well_formed_param no_ids_ns) [a_param, b_param]
   \<and> has_key ''id_part'' a_param
   \<and> required_missing [a_param, b_param] no_ids_ns = Inr [''--a'', ''--b/-b'']"
proof -
  have i: "ids_absent no_ids_ns" by (simp add: ids_absent_def no_ids_ns_def)
  have w: "list_all (well_formed_param no_ids_ns) [a_param, b_param]"
    by (simp add: well_formed_param_def no_ids_ns_def a_param_def b_param_def has_key_def)
  have a: "has_key ''required'' a_param \<and> has_key ''id_part'' a_param \<and> value_absent no_ids_ns a_param"
    by (simp add: has_key_def a_param_def value_absent_def no_ids_ns_def)
  have b: "has_key ''required'' b_param \<and> value_absent no_ids_ns b_param"
    by (simp add: has_key_def b_param_def value_absent_def no_ids_ns_def)
  have o: "option_spellings a_param = ''--a''" "option_spellings b_param = ''--b/-b''"
    by (simp_all add: option_spellings_def a_param_def b_param_def)
  from policy_without_ids [OF i w] a b o i w show ?thesis by simp
qed

text \<open>
  C4. When the stages before the policy succeed, \<^verbatim>\<open>validate_command\<close> raises
  \<open>ValidateFailureException\<close> exactly when some parameter is missing, and the message
  lists the option spellings of each missing parameter joined by \<open>/\<close>, in the order of
  the parameters of the command.
\<close>

theorem validate_command_raises_for_missing:
  assumes "parse_command C (command_tree v) command comments v = (Inr cmd, v1)"
    and "load_command_meta (metas v1) (signature cmd) (module cmd) = Inr meta"
    and "build_parser C meta v1 = (Inr parser, v2)"
    and "parse_args C parser (parameters cmd) v2 = (Inr ns, v3)"
    and "has_key ''ids'' ns"
    and "list_all (well_formed_param ns) (meta_parameters meta)"
  shows "((\<exists>msg. fst (validate_command C command comments v)
              = Inl (Raise ValidateFailureException msg))
          \<longleftrightarrow> missing_params ns (meta_parameters meta) \<noteq> [])
       \<and> (missing_params ns (meta_parameters meta) \<noteq> [] \<longrightarrow>
            fst (validate_command C command comments v)
              = Inl (Raise ValidateFailureException
                  (''the following arguments are required: ''
                   @ py_join '', '' (map option_spellings (missing_params ns (meta_parameters meta)))
                   @ '' '')))"
proof -
  let ?missing = "map option_spellings (missing_params ns (meta_parameters meta))"
  have run: "fst (validate_command C command comments v) =
      (if length ?missing > 0
       then Inl (Raise ValidateFailureException
              (''the following arguments are required: '' @ py_join '', '' ?missing @ '' ''))
       else Inr None)"
    using assms(1-4) required_missing_wf [OF assms(5,6)]
    by (simp add: validate_command_def)
  show ?thesis unfolding run by auto
qed

theorem validate_command_raises_for_missing_witness:
  "missing_params no_name_ns [name_param, location_param] = [name_param]
   \<and> fst (validate_command (fixed_collaborators no_name_ns) ''az group create -l eastus'' True
          resource_validator)
       = Inl (Raise ValidateFailureException ''the following arguments are required: --name/-n '')"
proof -
  let ?C = "fixed_collaborators no_name_ns"
  let ?cmd = "\<lparr>signature = [''group'', ''create''], module = ''resource'',
      parameters = drop 3 (py_split ''az group create -l eastus'')\<rparr>"
  let ?meta = "CommandMeta [name_param, location_param]"
  have p: "parse_command ?C (command_tree resource_validator) ''az group create -l eastus'' True
      resource_validator = (Inr ?cmd, resource_validator)"
    by (simp add: fixed_collaborators_def)
  have l: "load_command_meta (metas resource_validator) (signature ?cmd) (module ?cmd) = Inr ?meta"
    by (simp add: load_command_meta_def resource_validator_def resource_metas_def upt_conv_Cons)
  have b: "build_parser ?C ?meta resource_validator = (Inr (), resource_validator)"
    by (simp add: build_parser_def fixed_collaborators_def)
  have a: "parse_args ?C () (parameters ?cmd) resource_validator = (Inr no_name_ns, resource_validator)"
    by (simp add: fixed_collaborators_def)
  have i: "has_key ''ids'' no_name_ns" by (simp add: has_key_def no_name_ns_def)
  have w: "list_all (well_formed_param no_name_ns) (meta_parameters ?meta)"
    by (simp add: well_formed_param_def no_name_ns_def name_param_def location_param_def has_key_def)
  have m: "missing_params no_name_ns [name_param, location_param] = [name_param]"
    by (simp add: missing_params_def ids_present_def no_name_ns_def name_param_def
        location_param_def has_key_def value_absent_def)
  have o: "option_spellings name_param = ''--name/-n''"
    by (simp add: option_spellings_def name_param_def)
  from validate_command_raises_for_missing [OF p l b a i w] m o show ?thesis by simp
qed

lemma map_of_revalue:
  "map_of (revalue f p) k =
     (if k = ''required'' \<or> k = ''id_part'' then map_option (f k) (map_of p k) else map_of p k)"
  by (induction p) (auto simp: revalue_def)

lemma has_key_revalue: "has_key k (revalue f p) = has_key k p"
  by (simp add: has_key_def map_of_revalue)

lemma required_and_absent_revalue:
  "required_and_absent ns (revalue f p) = required_and_absent ns p"
  by (simp add: required_and_absent_def has_key_revalue map_of_revalue)

lemma joined_options_revalue: "joined_options (revalue f p) = joined_options p"
  by (simp add: joined_options_def map_of_revalue)

lemma check_param_revalue: "check_param ns (revalue f p) acc = check_param ns p acc"
  by (simp add: check_param_def required_and_absent_revalue joined_options_revalue
      split: sum.splits)

lemma missing_with_ids_revalue:
  "missing_with_ids ns (map (revalue f) ps) acc = missing_with_ids ns ps acc"
  by (induction ps arbitrary: acc)
    (simp_all add: has_key_revalue check_param_revalue split: sum.splits)

lemma missing_without_ids_revalue:
  "missing_without_ids ns (map (revalue f) ps) acc = missing_without_ids ns ps acc"
  by (induction ps arbitrary: acc) (simp_all add: check_param_revalue split: sum.splits)

text \<open>
  C9. The policy decides by which keys a parameter has, never by their values. Giving
  the keys \<open>required\<close> and \<open>id_part\<close> any other values leaves its result unchanged, and
  on parameters that follow the schema the recorded parameters are those that have the
  key \<open>required\<close>, lack the key \<open>id_part\<close> when the \<open>ids\<close> slot is present, and have an
  absent value. So a parameter with \<^verbatim>\<open>"required": false\<close> is recorded while the same
  parameter without the key is not, and with the \<open>ids\<close> slot present a parameter with
  \<^verbatim>\<open>"id_part": null\<close> is exempt while one without the key is recorded.
\<close>

theorem policy_tests_key_presence:
  "required_missing (map (revalue f) params) ns = required_missing params ns
   \<and> (has_key ''ids'' ns \<and> list_all (well_formed_param ns) params \<longrightarrow>
        required_missing params ns = Inr (map option_spellings (missing_params ns params)))
   \<and> required_missing [not_required_param] [(''ids'', JNull), (''tags'', JNull)] = Inr [''--tags'']
   \<and> required_missing [unmarked_param] [(''ids'', JNull), (''tags'', JNull)] = Inr []
   \<and> required_missing [null_id_part_param] [(''ids'', JStr ''X''), (''name'', JNull)] = Inr []
   \<and> required_missing [name_param] [(''ids'', JStr ''X''), (''name'', JNull)] = Inr [''--name/-n'']
   \<and> required_missing [null_id_part_param] [(''ids'', JNull), (''name'', JNull)]
       = Inr [''--name/-n'']"
proof (intro conjI impI)
  show "required_missing (map (revalue f) params) ns = required_missing params ns"
    by (simp add: required_missing_def missing_with_ids_revalue missing_without_ids_revalue
        split: option.splits)
  show "required_missing params ns = Inr (map option_spellings (missing_params ns params))"
    if "has_key ''ids'' ns \<and> list_all (well_formed_param ns) params"
    using that by (simp add: required_missing_wf)
  show "required_missing [not_required_param] [(''ids'', JNull), (''tags'', JNull)] = Inr [''--tags'']"
    by (simp add: required_missing_def not_required_param_def check_param_def
        required_and_absent_def has_key_def joined_options_def)
  show "required_missing [unmarked_param] [(''ids'', JNull), (''tags'', JNull)] = Inr []"
    by (simp add: required_missing_def unmarked_param_def check_param_def
        required_and_absent_def has_key_def)
  show "required_missing [null_id_part_param] [(''ids'', JStr ''X''), (''name'', JNull)] = Inr []"
    by (simp add: required_missing_def null_id_part_param_def has_key_def)
  show "required_missing [name_param] [(''ids'', JStr ''X''), (''name'', JNull)] = Inr [''--name/-n'']"
    by (simp add: required_missing_def name_param_def check_param_def
        required_and_absent_def has_key_def joined_options_def)
  show "required_missing [null_id_part_param] [(''ids'', JNull), (''name'', JNull)]
       = Inr [''--name/-n'']"
    by (simp add: required_missing_def null_id_part_param_def check_param_def
        required_and_absent_def has_key_def joined_options_def)
qed

theorem policy_tests_key_presence_witness:
  "has_key ''ids'' key_ns
   \<and> list_all (well_formed_param key_ns)
        [not_required_param, unmarked_param, null_id_part_param, name_param]
   \<and> missing_params key_ns [not_required_param, unmarked_param, null_id_part_param, name_param]
       = [not_required_param, name_param]
   \<and> required_missing [not_required_param, unmarked_param, null_id_part_param, name_param] key_ns
       = Inr [''--tags'', ''--name/-n'']"
proof -
  let ?ps = "[not_required_param, unmarked_param, null_id_part_param, name_param]"
  have i: "has_key ''ids'' key_ns" by (simp add: has_key_def key_ns_def)
  have w: "list_all (well_formed_param key_ns) ?ps"
    by (simp add: well_formed_param_def key_ns_def not_required_param_def unmarked_param_def
        null_id_part_param_def name_param_def has_key_def)
  have m: "missing_params key_ns ?ps = [not_required_param, name_param]"
    by (simp add: missing_params_def ids_present_def value_absent_def key_ns_def has_key_def
        not_required_param_def unmarked_param_def null_id_part_param_def name_param_def)
  have o: "option_spellings not_required_param = ''--tags''"
    "option_spellings name_param = ''--name/-n''"
    by (simp_all add: option_spellings_def not_required_param_def name_param_def)
  from policy_tests_key_presence [of _ ?ps key_ns] i w
  have "required_missing ?ps key_ns = Inr (map option_spellings (missing_params key_ns ?ps))"
    by blast
  with i w m o show ?thesis by simp
qed

section \<open>What a call of the validator returns and changes\<close>

text \<open>
  C1. \<^verbatim>\<open>validate_command\<close> never returns a namespace: its body ends without a
  \<^verbatim>\<open>return\<close> statement, so a call that does not raise returns \<^verbatim>\<open>None\<close>, also on the
  command \<open>az group create -n rg1 -l eastus\<close> that passes every stage.
\<close>

theorem validate_command_returns_None:
  "fst (validate_command C command comments v) \<noteq> Inr (Some ns)
   \<and> validate_command (fixed_collaborators good_ns) ''az group create -n rg1 -l eastus'' True
       resource_validator = (Inr None, resource_validator)"
proof
  show "fst (validate_command C command comments v) \<noteq> Inr (Some ns)"
    by (simp add: validate_command_def split: prod.splits sum.splits)
next
  have r: "required_missing [name_param, location_param] good_ns = Inr []"
    by (simp add: required_missing_def good_ns_def name_param_def location_param_def
        check_param_def required_and_absent_def has_key_def)
  show "validate_command (fixed_collaborators good_ns) ''az group create -n rg1 -l eastus'' True
       resource_validator = (Inr None, resource_validator)"
    by (simp add: validate_command_def fixed_collaborators_def build_parser_def
        load_command_meta_def resource_validator_def resource_metas_def upt_conv_Cons r)
qed

text \<open>
  C8. A call of \<^verbatim>\<open>validate_command\<close> leaves the metadata, the command tree and the
  global parser as they were, whether it returns or raises, when the collaborators are
  read-only.
\<close>

theorem validate_command_frame:
  assumes "read_only C"
  shows "snd (validate_command C command comments v) = v"
proof -
  from assms have pc: "\<And>t c b s. snd (parse_command C t c b s) = s"
    and ci: "\<And>gp s. snd (CLIParser_init C gp s) = s"
    and lm: "\<And>p m s. snd (load_meta C p m s) = s"
    and pa: "\<And>p a s. snd (parse_args C p a s) = s"
    by (simp_all add: read_only_def)
  have bp: "snd (build_parser C meta s) = s" for meta s
    using ci [of "global_parser s" s] lm
    by (auto simp: build_parser_def split: prod.splits sum.splits)
  show ?thesis
    using pc [of "command_tree v" command comments v] bp pa
    by (auto simp: validate_command_def split: prod.splits sum.splits) (metis snd_conv)+
qed

theorem validate_command_frame_witness:
  "read_only (fixed_collaborators no_name_ns)
   \<and> snd (validate_command (fixed_collaborators no_name_ns) ''az group create -l eastus'' True
         resource_validator) = resource_validator
   \<and> fst (validate_command (fixed_collaborators no_name_ns) ''az group create -l eastus'' True
         resource_validator)
       = Inl (Raise ValidateFailureException ''the following arguments are required: --name/-n '')"
proof -
  let ?C = "fixed_collaborators no_name_ns"
  have ro: "read_only ?C"
    by (simp add: read_only_def fixed_collaborators_def)
  have r: "required_missing [name_param, location_param] no_name_ns = Inr [''--name/-n'']"
    by (simp add: required_missing_def no_name_ns_def name_param_def location_param_def
        check_param_def required_and_absent_def has_key_def joined_options_def)
  have f: "fst (validate_command ?C ''az group create -l eastus'' True resource_validator)
       = Inl (Raise ValidateFailureException ''the following arguments are required: --name/-n '')"
    by (simp add: validate_command_def fixed_collaborators_def build_parser_def
        load_command_meta_def resource_validator_def resource_metas_def upt_conv_Cons r)
  from validate_command_frame [OF ro, of "''az group create -l eastus''" True resource_validator]
    ro f
  show ?thesis by simp
qed

end
